theory Spec2Isabelle
  imports Complex_Main
begin

section \<open>Python values as the collector sees them\<close>

text \<open>
  The collector reads untyped JSON. A payload is a \<open>json\<close> value: Python's \<open>None\<close>,
  \<open>bool\<close>, \<open>int\<close>, \<open>str\<close>, \<open>list\<close> and \<open>dict\<close>. A dict is an association list in
  insertion order (the keys of a parsed JSON object are distinct). Text is a list of 8-bit
  characters, read as the code points U+0000 to U+00FF; text with a character beyond them
  is not part of this model, nor are JSON numbers with a fraction or an exponent (Python
  floats).
\<close>

datatype json =
    JNull
  | JBool bool
  | JInt int
  | JStr string
  | JList "json list"
  | JDict "(string \<times> json) list"

text \<open>The exceptions the collector's own code can raise on a payload of the wrong shape.\<close>

datatype error = KeyError | ValueError | TypeError | AttributeError | IndexError

definition bindE :: "error + 'a \<Rightarrow> ('a \<Rightarrow> error + 'b) \<Rightarrow> error + 'b" where
  "bindE m f = (case m of Inl e \<Rightarrow> Inl e | Inr x \<Rightarrow> f x)"

text \<open>Truth value of a Python object, as \<open>if x:\<close> and \<open>not x\<close> test it.\<close>

fun truthy :: "json \<Rightarrow> bool" where
  "truthy JNull = False"
| "truthy (JBool b) = b"
| "truthy (JInt i) = (i \<noteq> 0)"
| "truthy (JStr s) = (s \<noteq> [])"
| "truthy (JList xs) = (xs \<noteq> [])"
| "truthy (JDict kvs) = (kvs \<noteq> [])"

text \<open>\<open>x.get(k, d)\<close>: only a dict has the method.\<close>

fun dict_get :: "json \<Rightarrow> string \<Rightarrow> json \<Rightarrow> error + json" where
  "dict_get (JDict kvs) k d = Inr (case map_of kvs k of Some v \<Rightarrow> v | None \<Rightarrow> d)"
| "dict_get _ k d = Inl AttributeError"

text \<open>\<open>x[k]\<close> with a string key \<open>k\<close>.\<close>

fun subscript :: "json \<Rightarrow> string \<Rightarrow> error + json" where
  "subscript (JDict kvs) k = (case map_of kvs k of Some v \<Rightarrow> Inr v | None \<Rightarrow> Inl KeyError)"
| "subscript _ k = Inl TypeError"

text \<open>\<open>for x in v\<close>: a list gives its elements, a dict its keys, a string its characters.\<close>

fun py_iter :: "json \<Rightarrow> error + json list" where
  "py_iter (JList xs) = Inr xs"
| "py_iter (JDict kvs) = Inr (map (\<lambda>kv. JStr (fst kv)) kvs)"
| "py_iter (JStr s) = Inr (map (\<lambda>c. JStr [c]) s)"
| "py_iter _ = Inl TypeError"

text \<open>
  \<open>a == b\<close> on payload values: \<open>True == 1\<close> and \<open>False == 0\<close> hold in Python; two lists
  are equal when they have the same length and equal elements, two dicts when they have
  the same keys with equal values, in whatever order.
\<close>

fun py_eq :: "json \<Rightarrow> json \<Rightarrow> bool" where
  "py_eq (JBool b) (JInt i) = (i = (if b then 1 else 0))"
| "py_eq (JInt i) (JBool b) = (i = (if b then 1 else 0))"
| "py_eq (JList xs) (JList ys) = list_all2 py_eq xs ys"
| "py_eq (JDict kvs) (JDict lws) =
     (length kvs = length lws \<and>
      list_all (\<lambda>kv. case map_of lws (fst kv) of Some w \<Rightarrow> py_eq (snd kv) w | None \<Rightarrow> False) kvs)"
| "py_eq a b = (a = b)"

subsection \<open>String methods\<close>

definition startswith :: "string \<Rightarrow> string \<Rightarrow> bool" where
  "startswith s p = (take (length p) s = p)"

text \<open>
  \<open>s.lower()\<close>, character by character: the capital letters below U+0100 are \<open>A\<close> to
  \<open>Z\<close> and U+00C0 to U+00DE but for the sign U+00D7, each 32 below its small letter.
\<close>

definition lower_char :: "char \<Rightarrow> char" where
  "lower_char c =
     (let n = (of_char c :: nat)
      in if (65 \<le> n \<and> n \<le> 90) \<or> (192 \<le> n \<and> n \<le> 214) \<or> (216 \<le> n \<and> n \<le> 222)
         then char_of (n + 32) else c)"

definition lower :: "string \<Rightarrow> string" where
  "lower s = map lower_char s"

text \<open>The decimal digits \<open>0\<close> to \<open>9\<close>.\<close>

definition digit_char :: "char \<Rightarrow> bool" where
  "digit_char c = (48 \<le> (of_char c :: nat) \<and> (of_char c :: nat) \<le> 57)"

text \<open>
  \<open>s.isdigit()\<close>: false on the empty string. Beside the decimal digits, Python counts
  the superscript digits U+00B2, U+00B3 and U+00B9 as digits.
\<close>

definition isdigit_char :: "char \<Rightarrow> bool" where
  "isdigit_char c = (digit_char c \<or> (of_char c :: nat) \<in> {178, 179, 185})"

definition isdigit :: "string \<Rightarrow> bool" where
  "isdigit s = (s \<noteq> [] \<and> list_all isdigit_char s)"

text \<open>\<open>s.strip(c)\<close> for a single character \<open>c\<close>.\<close>

definition strip_char :: "char \<Rightarrow> string \<Rightarrow> string" where
  "strip_char c s = rev (dropWhile (\<lambda>x. x = c) (rev (dropWhile (\<lambda>x. x = c) s)))"

text \<open>\<open>s.split(c)\<close> for a single character \<open>c\<close>: \<open>"".split(c)\<close> is \<open>[""]\<close>.\<close>

fun split_on :: "char \<Rightarrow> string \<Rightarrow> string list" where
  "split_on c [] = [[]]"
| "split_on c (x # xs) =
     (if x = c then [] # split_on c xs
      else (case split_on c xs of [] \<Rightarrow> [[x]] | p # ps \<Rightarrow> (x # p) # ps))"

text \<open>\<open>xs[-1]\<close>.\<close>

definition last_item :: "'a list \<Rightarrow> error + 'a" where
  "last_item xs = (case xs of [] \<Rightarrow> Inl IndexError | _ \<Rightarrow> Inr (last xs))"

section \<open>Configuration\<close>

definition BASE :: string where "BASE = ''https://ncaa-api.henrygd.me''"
definition SPORT :: string where "SPORT = ''soccer-women''"
definition DIV :: string where "DIV = ''d1''"
definition SEASONS :: "string list" where "SEASONS = [''2024'']"
definition SEASON_MONTHS :: "string list" where "SEASON_MONTHS = [''08'', ''09'', ''10'', ''11'']"

section \<open>HTTP helper\<close>

text \<open>
  The network is the environment. A \<open>world\<close> says what the \<open>n\<close>-th request of a run, to a
  given URL, does: \<open>session.get\<close> raises, or it returns a response with a status code and a
  body, where the body is \<open>Some j\<close> when \<open>r.json()\<close> parses it to \<open>j\<close> and \<open>None\<close> when
  \<open>r.json()\<close> raises. The state of a run is the log of URLs requested so far and the number
  of \<open>time.sleep(DELAY)\<close> pauses taken.
\<close>

datatype exn = Timeout | ConnectionError | JSONDecodeError | OtherException

datatype outcome = Raises exn | Response nat "json option"

type_synonym world = "nat \<Rightarrow> string \<Rightarrow> outcome"

record net =
  requested :: "string list"
  sleeps :: nat

definition request :: "string \<Rightarrow> net \<Rightarrow> net" where
  "request url st = st\<lparr>requested := requested st @ [url]\<rparr>"

definition sleep :: "net \<Rightarrow> net" where
  "sleep st = st\<lparr>sleeps := Suc (sleeps st)\<rparr>"

text \<open>
  The body of the \<open>try\<close> block of \<open>get\<close>: \<open>Inl\<close> is an exception leaving the block,
  \<open>Inr\<close> the value returned, where \<open>JNull\<close> is Python's \<open>None\<close>.
\<close>

definition get_try :: "world \<Rightarrow> string \<Rightarrow> net \<Rightarrow> (exn + json) \<times> net" where
  "get_try w url st =
     (case w (length (requested st)) url of
        Raises e \<Rightarrow> (Inl e, request url st)
      | Response status body \<Rightarrow>
          (let st1 = sleep (request url st) in
           if status = 200
           then (case body of Some j \<Rightarrow> (Inr j, st1) | None \<Rightarrow> (Inl JSONDecodeError, st1))
           else (Inr JNull, st1)))"

text \<open>\<open>get(path)\<close>: \<open>except Exception\<close> turns every exception of the block into \<open>None\<close>.\<close>

definition get :: "world \<Rightarrow> string \<Rightarrow> net \<Rightarrow> json \<times> net" where
  "get w path st =
     (case get_try w (BASE @ path) st of
        (Inr j, st1) \<Rightarrow> (j, st1)
      | (Inl e, st1) \<Rightarrow> (JNull, sleep st1))"

section \<open>Step 1: the schedule walker\<close>

text \<open>
  The date conversion inside \<open>get_game_dates\<close>: \<open>parts = d.split("-")\<close>, and when
  \<open>len(parts) == 3\<close> the text \<open>f"{parts[2]}/{parts[0]}/{parts[1]}"\<close>; \<open>None\<close> stands
  for a date that is not appended.
\<close>

definition reformat_date :: "string \<Rightarrow> string option" where
  "reformat_date d =
     (case split_on CHR ''-'' d of
        [p0, p1, p2] \<Rightarrow> Some (p2 @ ''/'' @ p0 @ ''/'' @ p1)
      | _ \<Rightarrow> None)"

text \<open>\<open>x > 0\<close>: defined on numbers and booleans, a \<open>TypeError\<close> on anything else.\<close>

fun gt_zero :: "json \<Rightarrow> error + bool" where
  "gt_zero (JInt i) = Inr (0 < i)"
| "gt_zero (JBool b) = Inr b"
| "gt_zero _ = Inl TypeError"

text \<open>\<open>d.split("-")\<close> is a method of \<open>str\<close> only.\<close>

fun split_date :: "json \<Rightarrow> error + string option" where
  "split_date (JStr s) = Inr (reformat_date s)"
| "split_date _ = Inl AttributeError"

text \<open>One pass of the loop over \<open>gameDates\<close>: the date the entry appends, if any.\<close>

definition date_entry :: "json \<Rightarrow> error + string option" where
  "date_entry entry =
     bindE (dict_get entry ''games'' (JInt 0)) (\<lambda>games.
     bindE (gt_zero games) (\<lambda>positive.
       if positive
       then bindE (dict_get entry ''contest_date'' JNull) (\<lambda>d.
              if truthy d then split_date d else Inr None)
       else Inr None))"

fun date_entries :: "json list \<Rightarrow> string list \<Rightarrow> error + string list" where
  "date_entries [] dates = Inr dates"
| "date_entries (entry # rest) dates =
     bindE (date_entry entry) (\<lambda>r.
       date_entries rest (case r of Some d \<Rightarrow> dates @ [d] | None \<Rightarrow> dates))"

definition schedule_path :: "string \<Rightarrow> string \<Rightarrow> string" where
  "schedule_path season month =
     ''/schedule/'' @ SPORT @ ''/'' @ DIV @ ''/'' @ season @ ''/'' @ month"

fun month_loop ::
  "world \<Rightarrow> string \<Rightarrow> string list \<Rightarrow> string list \<Rightarrow> net \<Rightarrow> (error + string list) \<times> net" where
  "month_loop w season [] dates st = (Inr dates, st)"
| "month_loop w season (month # rest) dates st =
     (case get w (schedule_path season month) st of
        (data, st1) \<Rightarrow>
          if \<not> truthy data then month_loop w season rest dates st1
          else (case bindE (dict_get data ''gameDates'' (JList [])) (\<lambda>v.
                     bindE (py_iter v) (\<lambda>entries. date_entries entries dates)) of
                  Inl e \<Rightarrow> (Inl e, st1)
                | Inr dates1 \<Rightarrow> month_loop w season rest dates1 st1))"

definition get_game_dates :: "world \<Rightarrow> string \<Rightarrow> net \<Rightarrow> (error + string list) \<times> net" where
  "get_game_dates w season st = month_loop w season SEASON_MONTHS [] st"

section \<open>Step 2: the scoreboard expander\<close>

text \<open>\<open>url.strip("/").split("/")[-1]\<close>.\<close>

definition full_id_of :: "string \<Rightarrow> error + string" where
  "full_id_of url = last_item (split_on CHR ''/'' (strip_char CHR ''/'' url))"

text \<open>\<open>game.get(a, {}).get(b, d)\<close> and \<open>game.get(a, {}).get(b, {}).get(c, d)\<close>.\<close>

definition get2 :: "json \<Rightarrow> string \<Rightarrow> string \<Rightarrow> json \<Rightarrow> error + json" where
  "get2 game a b d = bindE (dict_get game a (JDict [])) (\<lambda>x. dict_get x b d)"

definition get3 :: "json \<Rightarrow> string \<Rightarrow> string \<Rightarrow> string \<Rightarrow> json \<Rightarrow> error + json" where
  "get3 game a b c d =
     bindE (dict_get game a (JDict [])) (\<lambda>x.
     bindE (dict_get x b (JDict [])) (\<lambda>y. dict_get y c d))"

text \<open>The dict literal \<open>meta\<close>: its values are evaluated in the order written.\<close>

definition build_meta :: "string \<Rightarrow> json \<Rightarrow> error + json" where
  "build_meta full_id game =
     bindE (dict_get game ''startDate'' (JStr [])) (\<lambda>game_date.
     bindE (get3 game ''home'' ''names'' ''full'' (JStr [])) (\<lambda>home_team.
     bindE (get3 game ''home'' ''names'' ''seo'' (JStr [])) (\<lambda>home_seo.
     bindE (get2 game ''home'' ''score'' (JStr [])) (\<lambda>home_score.
     bindE (get2 game ''home'' ''winner'' (JBool False)) (\<lambda>home_winner.
     bindE (get2 game ''home'' ''description'' (JStr [])) (\<lambda>home_record.
     bindE (get3 game ''away'' ''names'' ''full'' (JStr [])) (\<lambda>away_team.
     bindE (get3 game ''away'' ''names'' ''seo'' (JStr [])) (\<lambda>away_seo.
     bindE (get2 game ''away'' ''score'' (JStr [])) (\<lambda>away_score.
     bindE (get2 game ''away'' ''winner'' (JBool False)) (\<lambda>away_winner.
     bindE (get2 game ''away'' ''description'' (JStr [])) (\<lambda>away_record.
     bindE (dict_get game ''gameState'' (JStr [])) (\<lambda>game_state.
       Inr (JDict
         [(''game_id'', JStr full_id), (''game_date'', game_date),
          (''home_team'', home_team), (''home_seo'', home_seo),
          (''home_score'', home_score), (''home_winner'', home_winner),
          (''home_record'', home_record),
          (''away_team'', away_team), (''away_seo'', away_seo),
          (''away_score'', away_score), (''away_winner'', away_winner),
          (''away_record'', away_record),
          (''game_state'', game_state)])))))))))))))"

text \<open>\<open>url.strip\<close> is a method of \<open>str\<close> only; \<open>url\<close> is truthy where it is called.\<close>

fun url_text :: "json \<Rightarrow> error + string" where
  "url_text (JStr u) = Inr u"
| "url_text _ = Inl AttributeError"

text \<open>
  One pass of the loop over \<open>games\<close>: \<open>None\<close> where the pass ends in \<open>continue\<close>,
  the pair appended to \<open>results\<close> otherwise.
\<close>

definition game_entry :: "json \<Rightarrow> error + (string \<times> json) option" where
  "game_entry item =
     bindE (dict_get item ''game'' (JDict [])) (\<lambda>game.
     bindE (dict_get game ''url'' (JStr [])) (\<lambda>url.
       if \<not> truthy url then Inr None
       else bindE (url_text url) (\<lambda>u.
            bindE (full_id_of u) (\<lambda>full_id.
              if \<not> isdigit full_id then Inr None
              else bindE (build_meta full_id game) (\<lambda>meta.
                     Inr (Some (full_id, meta)))))))"

fun game_entries ::
  "json list \<Rightarrow> (string \<times> json) list \<Rightarrow> error + (string \<times> json) list" where
  "game_entries [] results = Inr results"
| "game_entries (item # rest) results =
     bindE (game_entry item) (\<lambda>r.
       game_entries rest (case r of Some p \<Rightarrow> results @ [p] | None \<Rightarrow> results))"

definition scoreboard_path :: "string \<Rightarrow> string" where
  "scoreboard_path date_path = ''/scoreboard/'' @ SPORT @ ''/'' @ DIV @ ''/'' @ date_path"

definition get_game_ids_for_date ::
  "world \<Rightarrow> string \<Rightarrow> net \<Rightarrow> (error + (string \<times> json) list) \<times> net" where
  "get_game_ids_for_date w date_path st =
     (case get w (scoreboard_path date_path) st of
        (data, st1) \<Rightarrow>
          if \<not> truthy data then (Inr [], st1)
          else (bindE (dict_get data ''games'' (JList [])) (\<lambda>v.
                  bindE (py_iter v) (\<lambda>items. game_entries items [])), st1))"

section \<open>Step 3: the boxscore flattener\<close>

definition SOCCER_STAT_FIELDS :: "string list" where
  "SOCCER_STAT_FIELDS =
     [''goals'', ''assists'', ''points'', ''shots'', ''shotsOnGoal'',
      ''minutesPlayed'', ''goalsAgainst'', ''saves'',
      ''Shots'', ''ShotsOnGoal'', ''Goals'', ''Assists'', ''Points'',
      ''MinutesPlayed'', ''GoalsAgainst'', ''Saves'',
      ''gp'', ''gs'', ''min'']"

subsection \<open>\<open>str(x)\<close> and \<open>int(s)\<close>\<close>

fun show_nat :: "nat \<Rightarrow> string" where
  "show_nat n =
     (if n < 10 then [char_of (48 + n)] else show_nat (n div 10) @ [char_of (48 + n mod 10)])"

definition show_int :: "int \<Rightarrow> string" where
  "show_int i = (if i < 0 then CHR ''-'' # show_nat (nat (- i)) else show_nat (nat i))"

fun join :: "string \<Rightarrow> string list \<Rightarrow> string" where
  "join sep [] = []"
| "join sep [x] = x"
| "join sep (x # y # ys) = x @ sep @ join sep (y # ys)"

definition quoted :: "string \<Rightarrow> string" where
  "quoted s = CHR 0x27 # s @ [CHR 0x27]"

text \<open>
  \<open>repr(x)\<close>. The text of a list or a dict starts with a bracket, which is all that
  \<open>int\<close> below looks at; the escapes Python writes inside a quoted string are not
  rendered.
\<close>

fun py_repr :: "json \<Rightarrow> string" where
  "py_repr JNull = ''None''"
| "py_repr (JBool b) = (if b then ''True'' else ''False'')"
| "py_repr (JInt i) = show_int i"
| "py_repr (JStr s) = quoted s"
| "py_repr (JList xs) = ''['' @ join '', '' (map py_repr xs) @ '']''"
| "py_repr (JDict kvs) =
     ''{'' @ join '', '' (map (\<lambda>kv. quoted (fst kv) @ '': '' @ py_repr (snd kv)) kvs) @ ''}''"

fun py_str :: "json \<Rightarrow> string" where
  "py_str (JStr s) = s"
| "py_str x = py_repr x"

text \<open>
  The white space \<open>int\<close> skips around a number: the ASCII blanks, and the blanks U+0085
  and U+00A0.
\<close>

definition space_char :: "char \<Rightarrow> bool" where
  "space_char c = ((of_char c :: nat) \<in> {9, 10, 11, 12, 13, 32, 133, 160})"

definition strip_space :: "string \<Rightarrow> string" where
  "strip_space s = rev (dropWhile space_char (rev (dropWhile space_char s)))"

text \<open>
  The digits of an integer literal: groups of decimal digits, a single underscore between
  two groups.
\<close>

definition int_digits_ok :: "string \<Rightarrow> bool" where
  "int_digits_ok body =
     list_all (\<lambda>g. g \<noteq> [] \<and> list_all digit_char g) (split_on CHR ''_'' body)"

definition digits_value :: "string \<Rightarrow> nat" where
  "digits_value body =
     foldl (\<lambda>a c. 10 * a + ((of_char c :: nat) - 48)) 0 (filter digit_char body)"

text \<open>\<open>int(s)\<close> for a string \<open>s\<close>: white space around it and one sign are accepted.\<close>

definition py_int :: "string \<Rightarrow> error + int" where
  "py_int s =
     (let t = strip_space s;
          negative = (t \<noteq> [] \<and> hd t = CHR ''-'');
          body = (if t \<noteq> [] \<and> (hd t = CHR ''-'' \<or> hd t = CHR ''+'') then tl t else t)
      in if int_digits_ok body
         then Inr (if negative then - int (digits_value body) else int (digits_value body))
         else Inl ValueError)"

subsection \<open>The team lookup\<close>

text \<open>
  \<open>teams_info\<close> is a dict keyed by payload values: an association list whose keys are
  compared with \<open>==\<close>. A list or a dict is not hashable and cannot be a key.
\<close>

type_synonym teams = "(json \<times> json) list"

fun hashable :: "json \<Rightarrow> bool" where
  "hashable (JList xs) = False"
| "hashable (JDict kvs) = False"
| "hashable _ = True"

fun teams_put :: "teams \<Rightarrow> json \<Rightarrow> json \<Rightarrow> teams" where
  "teams_put [] k v = [(k, v)]"
| "teams_put ((k1, v1) # rest) k v =
     (if py_eq k1 k then (k1, v) # rest else (k1, v1) # teams_put rest k v)"

fun teams_get :: "teams \<Rightarrow> json \<Rightarrow> json \<Rightarrow> json" where
  "teams_get [] k d = d"
| "teams_get ((k1, v1) # rest) k d = (if py_eq k1 k then v1 else teams_get rest k d)"

text \<open>\<open>{t["teamId"]: t for t in ...}\<close>.\<close>

fun build_teams_info :: "json list \<Rightarrow> teams \<Rightarrow> error + teams" where
  "build_teams_info [] acc = Inr acc"
| "build_teams_info (t # rest) acc =
     bindE (subscript t ''teamId'') (\<lambda>k.
       if hashable k then build_teams_info rest (teams_put acc k t) else Inl TypeError)"

text \<open>
  \<open>team_id = str(team_box.get("teamId", ""))\<close> and
  \<open>teams_info.get(team_id, teams_info.get(int(team_id), {}))\<close>: Python evaluates the
  arguments of the outer \<open>get\<close> first, so \<open>int(team_id)\<close> runs whether or not
  the string key is found.
\<close>

definition resolve_team :: "teams \<Rightarrow> json \<Rightarrow> error + json" where
  "resolve_team teams_info team_box =
     bindE (dict_get team_box ''teamId'' (JStr [])) (\<lambda>tid.
       let team_id = py_str tid in
       bindE (py_int team_id) (\<lambda>n.
         Inr (teams_get teams_info (JStr team_id) (teams_get teams_info (JInt n) (JDict [])))))"

subsection \<open>Home or away\<close>

text \<open>
  \<open>if team_seo and team_seo == meta.get("home_seo")\<close>, with the flag, the winner flag
  and the record each branch sets.
\<close>

definition home_away :: "json \<Rightarrow> json \<Rightarrow> error + (bool \<times> json \<times> json)" where
  "home_away team_seo meta =
     bindE (if truthy team_seo
            then bindE (dict_get meta ''home_seo'' JNull) (\<lambda>h. Inr (py_eq team_seo h))
            else Inr False) (\<lambda>is_home.
       if is_home
       then bindE (dict_get meta ''home_winner'' (JBool False)) (\<lambda>won.
            bindE (dict_get meta ''home_record'' (JStr [])) (\<lambda>record.
              Inr (True, won, record)))
       else bindE (dict_get meta ''away_winner'' (JBool False)) (\<lambda>won.
            bindE (dict_get meta ''away_record'' (JStr [])) (\<lambda>record.
              Inr (False, won, record))))"

subsection \<open>Player rows\<close>

text \<open>A row is a dict from column name to value, in insertion order.\<close>

type_synonym row = "(string \<times> json) list"

text \<open>\<open>row[k] = v\<close>.\<close>

definition row_set :: "row \<Rightarrow> string \<Rightarrow> json \<Rightarrow> row" where
  "row_set row k v =
     (if k \<in> fst ` set row
      then map (\<lambda>kv. if fst kv = k then (k, v) else kv) row
      else row @ [(k, v)])"

text \<open>\<open>x[:4]\<close>.\<close>

fun slice4 :: "json \<Rightarrow> error + json" where
  "slice4 (JStr s) = Inr (JStr (take 4 s))"
| "slice4 (JList xs) = Inr (JList (take 4 xs))"
| "slice4 _ = Inl TypeError"

fun player_items :: "json \<Rightarrow> error + (string \<times> json) list" where
  "player_items (JDict kvs) = Inr kvs"
| "player_items _ = Inl AttributeError"

text \<open>The loop over \<open>SOCCER_STAT_FIELDS\<close>.\<close>

fun known_stats :: "string list \<Rightarrow> (string \<times> json) list \<Rightarrow> row \<Rightarrow> row" where
  "known_stats [] player row = row"
| "known_stats (field # rest) player row =
     known_stats rest player
       (case map_of player field of
          Some v \<Rightarrow> row_set row (''stat_'' @ lower field) v
        | None \<Rightarrow> row)"

definition identity_fields :: "string list" where
  "identity_fields = [''firstName'', ''lastName'', ''number'', ''position'', ''category'']"

text \<open>The loop over \<open>player.items()\<close>.\<close>

fun unknown_stats :: "(string \<times> json) list \<Rightarrow> row \<Rightarrow> row" where
  "unknown_stats [] row = row"
| "unknown_stats ((k, v) # rest) row =
     (if startswith k ''__'' \<or> k \<in> set identity_fields then unknown_stats rest row
      else unknown_stats rest
             (if ''stat_'' @ lower k \<in> fst ` set row then row
              else row_set row (''stat_'' @ lower k) v))"

definition player_row ::
  "string \<Rightarrow> json \<Rightarrow> json \<Rightarrow> json \<Rightarrow> bool \<Rightarrow> json \<Rightarrow> json \<Rightarrow> json \<Rightarrow> error + row" where
  "player_row game_id meta team_name team_seo is_home won record player =
     bindE (subscript meta ''game_date'') (\<lambda>game_date.
     bindE (if truthy game_date then slice4 game_date else Inr (JStr [])) (\<lambda>season.
     bindE (player_items player) (\<lambda>items.
       let field = (\<lambda>k. case map_of items k of Some v \<Rightarrow> v | None \<Rightarrow> JStr []) in
       Inr (unknown_stats items (known_stats SOCCER_STAT_FIELDS items
         [(''game_id'', JStr game_id),
          (''game_date'', game_date),
          (''season'', season),
          (''player_first'', field ''firstName''),
          (''player_last'', field ''lastName''),
          (''player_num'', field ''number''),
          (''position'', field ''position''),
          (''stat_type'', field ''__typename''),
          (''category'', field ''category''),
          (''team_name'', team_name),
          (''team_seo'', team_seo),
          (''is_home'', JBool is_home),
          (''team_won'', won),
          (''team_record_at_game'', record)])))))"

fun player_rows ::
  "string \<Rightarrow> json \<Rightarrow> json \<Rightarrow> json \<Rightarrow> bool \<Rightarrow> json \<Rightarrow> json \<Rightarrow> json list \<Rightarrow> row list
     \<Rightarrow> error + row list" where
  "player_rows game_id meta team_name team_seo is_home won record [] rows = Inr rows"
| "player_rows game_id meta team_name team_seo is_home won record (player # rest) rows =
     bindE (player_row game_id meta team_name team_seo is_home won record player) (\<lambda>row.
       player_rows game_id meta team_name team_seo is_home won record rest (rows @ [row]))"

text \<open>One pass of the loop over \<open>teamBoxscore\<close>.\<close>

definition team_block :: "string \<Rightarrow> json \<Rightarrow> teams \<Rightarrow> json \<Rightarrow> row list \<Rightarrow> error + row list" where
  "team_block game_id meta teams_info team_box rows =
     bindE (resolve_team teams_info team_box) (\<lambda>team_inf.
     bindE (dict_get team_inf ''nameFull'' JNull) (\<lambda>name_full.
     bindE (if truthy name_full then Inr name_full
            else dict_get team_inf ''nameShort'' (JStr [])) (\<lambda>team_name.
     bindE (dict_get team_inf ''seoname'' (JStr [])) (\<lambda>team_seo.
     bindE (home_away team_seo meta) (\<lambda>hw.
     bindE (dict_get team_box ''playerStats'' (JList [])) (\<lambda>ps.
     bindE (py_iter ps) (\<lambda>players.
       player_rows game_id meta team_name team_seo (fst hw) (fst (snd hw)) (snd (snd hw))
         players rows)))))))"

fun team_blocks :: "string \<Rightarrow> json \<Rightarrow> teams \<Rightarrow> json list \<Rightarrow> row list \<Rightarrow> error + row list" where
  "team_blocks game_id meta teams_info [] rows = Inr rows"
| "team_blocks game_id meta teams_info (team_box # rest) rows =
     bindE (team_block game_id meta teams_info team_box rows) (\<lambda>rows1.
       team_blocks game_id meta teams_info rest rows1)"

definition boxscore_path :: "string \<Rightarrow> string" where
  "boxscore_path game_id = ''/game/'' @ game_id @ ''/boxscore''"

text \<open>The part of \<open>parse_boxscore\<close> after the fetch, on a payload that is not falsy.\<close>

definition boxscore_rows :: "string \<Rightarrow> json \<Rightarrow> json \<Rightarrow> error + row list" where
  "boxscore_rows game_id meta data =
     bindE (dict_get data ''teams'' (JList [])) (\<lambda>tv.
     bindE (py_iter tv) (\<lambda>ts.
     bindE (build_teams_info ts []) (\<lambda>teams_info.
     bindE (dict_get data ''teamBoxscore'' (JList [])) (\<lambda>bv.
     bindE (py_iter bv) (\<lambda>boxes.
       team_blocks game_id meta teams_info boxes [])))))"

definition parse_boxscore :: "world \<Rightarrow> string \<Rightarrow> json \<Rightarrow> net \<Rightarrow> (error + row list) \<times> net" where
  "parse_boxscore w game_id meta st =
     (case get w (boxscore_path game_id) st of
        (data, st1) \<Rightarrow>
          if \<not> truthy data then (Inr [], st1) else (boxscore_rows game_id meta data, st1))"

section \<open>The run: \<open>main\<close> up to the collected rows\<close>

fun scoreboard_loop ::
  "world \<Rightarrow> string list \<Rightarrow> (string \<times> json) list \<Rightarrow> net
     \<Rightarrow> (error + (string \<times> json) list) \<times> net" where
  "scoreboard_loop w [] game_metas st = (Inr game_metas, st)"
| "scoreboard_loop w (date # rest) game_metas st =
     (case get_game_ids_for_date w date st of
        (Inl e, st1) \<Rightarrow> (Inl e, st1)
      | (Inr found, st1) \<Rightarrow> scoreboard_loop w rest (game_metas @ found) st1)"

text \<open>The deduplication loop, with its set \<open>seen\<close> and its list \<open>unique_games\<close>.\<close>

fun dedupe ::
  "(string \<times> json) list \<Rightarrow> string set \<Rightarrow> (string \<times> json) list \<Rightarrow> (string \<times> json) list" where
  "dedupe [] seen unique_games = unique_games"
| "dedupe ((gid, meta) # rest) seen unique_games =
     (if gid \<notin> seen then dedupe rest (insert gid seen) (unique_games @ [(gid, meta)])
      else dedupe rest seen unique_games)"

fun boxscore_loop ::
  "world \<Rightarrow> (string \<times> json) list \<Rightarrow> row list \<Rightarrow> nat \<Rightarrow> net
     \<Rightarrow> (error + row list \<times> nat) \<times> net" where
  "boxscore_loop w [] season_rows failed st = (Inr (season_rows, failed), st)"
| "boxscore_loop w ((gid, meta) # rest) season_rows failed st =
     (case parse_boxscore w gid meta st of
        (Inl e, st1) \<Rightarrow> (Inl e, st1)
      | (Inr rows, st1) \<Rightarrow>
          if rows \<noteq> [] then boxscore_loop w rest (season_rows @ rows) failed st1
          else boxscore_loop w rest season_rows (Suc failed) st1)"

text \<open>The body of the loop over \<open>SEASONS\<close>.\<close>

definition season_body ::
  "world \<Rightarrow> string \<Rightarrow> row list \<Rightarrow> net \<Rightarrow> (error + row list) \<times> net" where
  "season_body w season all_game_rows st =
     (case get_game_dates w season st of
        (Inl e, st1) \<Rightarrow> (Inl e, st1)
      | (Inr dates, st1) \<Rightarrow>
          (case scoreboard_loop w dates [] st1 of
             (Inl e, st2) \<Rightarrow> (Inl e, st2)
           | (Inr game_metas, st2) \<Rightarrow>
               (case boxscore_loop w (dedupe game_metas {} []) [] 0 st2 of
                  (Inl e, st3) \<Rightarrow> (Inl e, st3)
                | (Inr (season_rows, failed), st3) \<Rightarrow>
                    (Inr (all_game_rows @ season_rows), st3))))"

fun season_loop ::
  "world \<Rightarrow> string list \<Rightarrow> row list \<Rightarrow> net \<Rightarrow> (error + row list) \<times> net" where
  "season_loop w [] all_game_rows st = (Inr all_game_rows, st)"
| "season_loop w (season # rest) all_game_rows st =
     (case season_body w season all_game_rows st of
        (Inl e, st1) \<Rightarrow> (Inl e, st1)
      | (Inr rows, st1) \<Rightarrow> season_loop w rest rows st1)"

text \<open>
  \<open>main\<close> as far as \<open>all_game_rows\<close>. What follows in \<open>main\<close> writes the two tables and
  calls the aggregator; it sends no request.
\<close>

definition main_rows :: "world \<Rightarrow> net \<Rightarrow> (error + row list) \<times> net" where
  "main_rows w st = season_loop w SEASONS [] st"

section \<open>Step 4: the season aggregator\<close>

text \<open>
  A numeric cell of a table is a finite number, an infinity or the missing value (\<open>NaN\<close>,
  \<open>pd.NA\<close>). A raw cell is a text, a boolean, a numeric cell (\<open>None\<close> is the missing
  value), or a Python list or dict.
\<close>

datatype num = NaN | Fin rat | PInf | NInf

datatype cell = Txt string | Flag bool | Val num | Obj json

text \<open>The input table: its column labels in order, and one list of cells per row.\<close>

record frame =
  columns :: "string list"
  rows :: "cell list list"

definition cell_at :: "cell list \<Rightarrow> nat \<Rightarrow> cell" where
  "cell_at r i = (if i < length r then r ! i else Val NaN)"

fun missing :: "cell \<Rightarrow> bool" where
  "missing (Val NaN) = True"
| "missing _ = False"

subsection \<open>The table library\<close>

text \<open>
  What the table library computes with machine numbers is not part of the repository and
  is a parameter of the model: the coercion \<open>pd.to_numeric(..., errors="coerce")\<close> of a
  raw cell, the aggregation \<open>sum\<close> over the values of one column in one group (64-bit
  integers or floating-point numbers, missing values skipped), and the sum, the half and
  the quotient of two finite numbers as floating-point arithmetic gives them. Nothing is
  assumed of them.
\<close>

record pandas =
  to_numeric :: "cell \<Rightarrow> num"
  group_sum :: "num list \<Rightarrow> num"
  elem_add :: "rat \<Rightarrow> rat \<Rightarrow> num"
  elem_half :: "rat \<Rightarrow> num"
  elem_div :: "rat \<Rightarrow> rat \<Rightarrow> num"

subsection \<open>Arithmetic on numeric cells\<close>

text \<open>\<open>a + b\<close>: a missing operand gives the missing value.\<close>

fun num_add :: "pandas \<Rightarrow> num \<Rightarrow> num \<Rightarrow> num" where
  "num_add lib (Fin a) (Fin b) = elem_add lib a b"
| "num_add lib NaN _ = NaN"
| "num_add lib _ NaN = NaN"
| "num_add lib PInf NInf = NaN"
| "num_add lib NInf PInf = NaN"
| "num_add lib PInf _ = PInf"
| "num_add lib _ PInf = PInf"
| "num_add lib NInf _ = NInf"
| "num_add lib _ NInf = NInf"

text \<open>\<open>0.5 * x\<close>.\<close>

fun half :: "pandas \<Rightarrow> num \<Rightarrow> num" where
  "half lib (Fin a) = elem_half lib a"
| "half lib v = v"

text \<open>
  \<open>a / b\<close> as a table computes it: no exception, a missing operand gives the missing
  value, and a zero divisor gives an infinity, or the missing value for \<open>0 / 0\<close>.
\<close>

fun num_div :: "pandas \<Rightarrow> num \<Rightarrow> num \<Rightarrow> num" where
  "num_div lib NaN _ = NaN"
| "num_div lib _ NaN = NaN"
| "num_div lib (Fin a) (Fin b) =
     (if b = 0 then (if a = 0 then NaN else if 0 < a then PInf else NInf)
      else elem_div lib a b)"
| "num_div lib (Fin a) _ = Fin 0"
| "num_div lib PInf (Fin b) = (if b < 0 then NInf else PInf)"
| "num_div lib NInf (Fin b) = (if b < 0 then PInf else NInf)"
| "num_div lib _ _ = NaN"

text \<open>\<open>x.fillna(0)\<close>.\<close>

fun fillna0 :: "num \<Rightarrow> num" where
  "fillna0 NaN = Fin 0"
| "fillna0 v = v"

text \<open>\<open>x.replace(0, pd.NA)\<close> on a count.\<close>

definition replace_zero :: "nat \<Rightarrow> num" where
  "replace_zero n = (if n = 0 then NaN else Fin (of_nat n))"

text \<open>The aggregation \<open>count\<close> of a group: the cells that are not missing.\<close>

definition count_present :: "cell list \<Rightarrow> nat" where
  "count_present cs = length (filter (\<lambda>c. \<not> missing c) cs)"

text \<open>\<open>x >= 60\<close> on a numeric cell: false on a missing value.\<close>

fun ge60 :: "num \<Rightarrow> bool" where
  "ge60 (Fin a) = (60 \<le> a)"
| "ge60 PInf = True"
| "ge60 _ = False"

text \<open>
  The win flag of a row as \<open>sum\<close> reads it: a boolean counts 1 or 0. A text, a list or a
  dict in the column makes the sum, or the division after it, raise.
\<close>

fun won_value :: "cell \<Rightarrow> error + num" where
  "won_value (Flag b) = Inr (Fin (if b then 1 else 0))"
| "won_value (Val v) = Inr v"
| "won_value (Txt s) = Inl TypeError"
| "won_value (Obj j) = Inl TypeError"

fun mapE :: "('a \<Rightarrow> error + 'b) \<Rightarrow> 'a list \<Rightarrow> error + 'b list" where
  "mapE f [] = Inr []"
| "mapE f (x # xs) = bindE (f x) (\<lambda>y. bindE (mapE f xs) (\<lambda>ys. Inr (y # ys)))"

subsection \<open>Columns\<close>

text \<open>\<open>"minute" in c\<close>.\<close>

fun contains :: "string \<Rightarrow> string \<Rightarrow> bool" where
  "contains [] sub = (sub = [])"
| "contains (c # cs) sub = (startswith (c # cs) sub \<or> contains cs sub)"

definition first_index :: "string list \<Rightarrow> string \<Rightarrow> nat" where
  "first_index cols c = length (takeWhile (\<lambda>x. x \<noteq> c) cols)"

text \<open>
  The position of a column the aggregation names: a \<open>KeyError\<close> when no column has the
  label. Two columns with the label make the table operations that use it raise; the model
  answers \<open>ValueError\<close> for all of them.
\<close>

definition label_index :: "string list \<Rightarrow> string \<Rightarrow> error + nat" where
  "label_index cols c =
     (if c \<notin> set cols then Inl KeyError
      else if 1 < count_list cols c then Inl ValueError
      else Inr (first_index cols c))"

definition group_cols :: "string list" where
  "group_cols = [''player_first'', ''player_last'', ''team_name'', ''team_seo'', ''season'']"

subsection \<open>Groups\<close>

text \<open>
  A cell as a group key: keys are compared with \<open>==\<close>, under which \<open>True\<close> is 1 and
  \<open>False\<close> is 0. A list or a dict cannot be a key.
\<close>

fun key_cell :: "cell \<Rightarrow> cell" where
  "key_cell (Flag b) = Val (Fin (if b then 1 else 0))"
| "key_cell c = c"

fun unhashable :: "cell \<Rightarrow> bool" where
  "unhashable (Obj j) = True"
| "unhashable _ = False"

definition key_of :: "nat list \<Rightarrow> cell list \<Rightarrow> cell list" where
  "key_of key_idx r = map (\<lambda>i. key_cell (cell_at r i)) key_idx"

text \<open>
  \<open>groupby(group_cols)\<close>: a row with a missing value in a key column belongs to no group.
  The table lists the groups sorted by key; the model lists each key once, and nothing
  below depends on the order.
\<close>

definition group_keys :: "nat list \<Rightarrow> cell list list \<Rightarrow> cell list list" where
  "group_keys key_idx rs =
     remdups (filter (\<lambda>k. \<not> list_ex missing k) (map (key_of key_idx) rs))"

definition members :: "nat list \<Rightarrow> cell list list \<Rightarrow> cell list \<Rightarrow> cell list list" where
  "members key_idx rs k = filter (\<lambda>r. key_of key_idx r = k) rs"

subsection \<open>The result\<close>

text \<open>
  One row of the result. A column that the run did not create is \<open>None\<close> in every row:
  \<open>est_starts\<close> and \<open>start_rate\<close> exist when a minutes column does,
  \<open>production_per_game\<close> when \<open>g_col and a_col\<close> holds.
\<close>

record season_row =
  key :: "cell list"
  stat_sums :: "(string \<times> num) list"
  games_played :: nat
  team_wins_in :: num
  est_starts :: "nat option"
  start_rate :: "num option"
  win_rate :: num
  production_per_game :: "num option"

record season_table =
  table_columns :: "string list"
  table_rows :: "season_row list"

definition sum_of :: "(string \<times> num) list \<Rightarrow> string \<Rightarrow> num" where
  "sum_of ss c = (case map_of ss c of Some v \<Rightarrow> v | None \<Rightarrow> NaN)"

text \<open>The row of one group: \<open>ms\<close> are the rows of the group, \<open>k\<close> its key.\<close>

definition summarize ::
  "pandas \<Rightarrow> string list \<Rightarrow> string list \<Rightarrow> nat \<Rightarrow> nat \<Rightarrow> cell list \<Rightarrow> cell list list
     \<Rightarrow> error + season_row" where
  "summarize lib cols stat_cols id_idx won_idx k ms =
     bindE (mapE (\<lambda>r. won_value (cell_at r won_idx)) ms) (\<lambda>wins.
       let numeric = (\<lambda>c r. to_numeric lib (cell_at r (first_index cols c)));
           ss = map (\<lambda>c. (c, group_sum lib (map (numeric c) ms))) stat_cols;
           played = count_present (map (\<lambda>r. cell_at r id_idx) ms);
           won = group_sum lib wins;
           min_col = find (\<lambda>c. contains c ''minute'' \<or> c = ''stat_min'') stat_cols;
           starts = map_option (\<lambda>m.
               count_present (map (\<lambda>r. cell_at r id_idx)
                 (filter (\<lambda>r. ge60 (numeric m r)) ms))) min_col;
           g_col = find (\<lambda>c. c = ''stat_goals'') stat_cols;
           a_col = find (\<lambda>c. c = ''stat_assists'') stat_cols
       in Inr \<lparr>key = k, stat_sums = ss, games_played = played, team_wins_in = won,
               est_starts = starts,
               start_rate =
                 map_option (\<lambda>n. num_div lib (Fin (of_nat n)) (replace_zero played)) starts,
               win_rate = num_div lib won (replace_zero played),
               production_per_game =
                 (case (g_col, a_col) of
                    (Some g, Some a) \<Rightarrow>
                      Some (num_div lib
                              (num_add lib (fillna0 (sum_of ss g)) (half lib (fillna0 (sum_of ss a))))
                              (replace_zero played))
                  | _ \<Rightarrow> None)\<rparr>)"

definition result_columns :: "string list \<Rightarrow> string list" where
  "result_columns stat_cols =
     group_cols @ stat_cols @ [''games_played'', ''team_wins_in'']
     @ (case find (\<lambda>c. contains c ''minute'' \<or> c = ''stat_min'') stat_cols of
          Some m \<Rightarrow> [''est_starts'', ''start_rate''] | None \<Rightarrow> [])
     @ [''win_rate'']
     @ (case (find (\<lambda>c. c = ''stat_goals'') stat_cols,
              find (\<lambda>c. c = ''stat_assists'') stat_cols) of
          (Some g, Some a) \<Rightarrow> [''production_per_game''] | _ \<Rightarrow> [])"

text \<open>
  \<open>aggregate_player_season\<close>. A statistic label that two columns share makes
  \<open>pd.to_numeric\<close> raise a \<open>TypeError\<close>, and so does a list or a dict in a key column
  when the rows are grouped.
\<close>

definition aggregate_player_season :: "pandas \<Rightarrow> frame \<Rightarrow> error + season_table" where
  "aggregate_player_season lib game_rows =
     (if columns game_rows = [] \<or> rows game_rows = []
      then Inr \<lparr>table_columns = [], table_rows = []\<rparr>
      else
        let cols = map lower (columns game_rows);
            stat_cols = filter (\<lambda>c. startswith c ''stat_'') cols
        in if \<not> distinct stat_cols then Inl TypeError
           else
             bindE (mapE (label_index cols) group_cols) (\<lambda>key_idx.
             bindE (label_index cols ''game_id'') (\<lambda>id_idx.
             bindE (label_index cols ''team_won'') (\<lambda>won_idx.
               if list_ex (\<lambda>r. list_ex (\<lambda>i. unhashable (cell_at r i)) key_idx) (rows game_rows)
               then Inl TypeError
               else
                 bindE (mapE (\<lambda>k. summarize lib cols stat_cols id_idx won_idx k
                                     (members key_idx (rows game_rows) k))
                          (group_keys key_idx (rows game_rows))) (\<lambda>rs.
                   Inr \<lparr>table_columns = result_columns stat_cols, table_rows = rs\<rparr>)))))"

section \<open>The end of \<open>main\<close>: the two tables\<close>

text \<open>
  \<open>pd.DataFrame(all_game_rows)\<close>: the columns are the keys of the rows in the order in
  which they first appear, and a row has the missing value where it lacks a key.
\<close>

fun cell_of :: "json \<Rightarrow> cell" where
  "cell_of JNull = Val NaN"
| "cell_of (JBool b) = Flag b"
| "cell_of (JInt i) = Val (Fin (of_int i))"
| "cell_of (JStr s) = Txt s"
| "cell_of (JList xs) = Obj (JList xs)"
| "cell_of (JDict kvs) = Obj (JDict kvs)"

definition frame_columns :: "row list \<Rightarrow> string list" where
  "frame_columns rs = rev (remdups (rev (concat (map (map fst) rs))))"

definition frame_row :: "string list \<Rightarrow> row \<Rightarrow> cell list" where
  "frame_row cols r = map (\<lambda>c. case map_of r c of Some v \<Rightarrow> cell_of v | None \<Rightarrow> Val NaN) cols"

definition data_frame :: "row list \<Rightarrow> frame" where
  "data_frame rs = \<lparr>columns = frame_columns rs, rows = map (frame_row (frame_columns rs)) rs\<rparr>"

text \<open>
  \<open>main\<close>: the result is the season table written last, \<open>None\<close> when no row was
  collected. Writing the two files is left out.
\<close>

definition main :: "pandas \<Rightarrow> world \<Rightarrow> net \<Rightarrow> (error + season_table option) \<times> net" where
  "main lib w st =
     (case main_rows w st of
        (Inl e, st1) \<Rightarrow> (Inl e, st1)
      | (Inr all_game_rows, st1) \<Rightarrow>
          if all_game_rows = [] then (Inr None, st1)
          else (case aggregate_player_season lib (data_frame all_game_rows) of
                  Inl e \<Rightarrow> (Inl e, st1)
                | Inr player_df \<Rightarrow> (Inr (Some player_df), st1)))"

section \<open>Notions of the specification\<close>

text \<open>
  A well-formed date of the schedule: ten characters \<open>MM-DD-YYYY\<close>, digits but for the two
  dashes. \<open>restore_date\<close> reads the month-day-year text back from \<open>YYYY/MM/DD\<close>.
\<close>

definition well_formed_date :: "string \<Rightarrow> bool" where
  "well_formed_date d =
     (length d = 10 \<and> d ! 2 = CHR ''-'' \<and> d ! 5 = CHR ''-'' \<and>
      list_all digit_char (take 2 d @ take 2 (drop 3 d) @ drop 6 d))"

definition restore_date :: "string \<Rightarrow> string" where
  "restore_date s = take 2 (drop 5 s) @ ''-'' @ drop 8 s @ ''-'' @ take 4 s"

text \<open>
  The final path segment of a URL: what follows its last slash, slashes at its end left
  aside.
\<close>

definition final_segment :: "string \<Rightarrow> string" where
  "final_segment u =
     rev (takeWhile (\<lambda>c. c \<noteq> CHR ''/'') (dropWhile (\<lambda>c. c = CHR ''/'') (rev u)))"

text \<open>
  Of the recognised field names that a player record holds and that differ from \<open>field\<close>
  by case only, the one that stands last in \<open>SOCCER_STAT_FIELDS\<close>.
\<close>

definition winning_variant :: "(string \<times> json) list \<Rightarrow> string \<Rightarrow> string" where
  "winning_variant player field =
     last (filter (\<lambda>g. lower g = lower field \<and> g \<in> dom (map_of player)) SOCCER_STAT_FIELDS)"

text \<open>
  A row is classified against \<open>meta\<close>: it is a home row exactly when its short-code is
  truthy and equals the home short-code of \<open>meta\<close>, and it carries the winner flag and the
  record of the side it was given.
\<close>

definition classified :: "json \<Rightarrow> row \<Rightarrow> bool" where
  "classified meta row =
     (\<exists>seo home won record.
        map_of row ''team_seo'' = Some seo \<and> map_of row ''team_won'' = Some won \<and>
        map_of row ''team_record_at_game'' = Some record \<and>
        dict_get meta ''home_seo'' JNull = Inr home \<and>
        (if truthy seo \<and> py_eq seo home
         then map_of row ''is_home'' = Some (JBool True) \<and>
              dict_get meta ''home_winner'' (JBool False) = Inr won \<and>
              dict_get meta ''home_record'' (JStr []) = Inr record
         else map_of row ''is_home'' = Some (JBool False) \<and>
              dict_get meta ''away_winner'' (JBool False) = Inr won \<and>
              dict_get meta ''away_record'' (JStr []) = Inr record))"

text \<open>
  How often a run, between two of its states, requested the boxscore of a game: each call
  of \<open>parse_boxscore\<close> sends exactly one such request, and nothing else requests a
  boxscore.
\<close>

definition boxscore_requests :: "string \<Rightarrow> net \<Rightarrow> net \<Rightarrow> nat" where
  "boxscore_requests gid st st1 =
     count_list (drop (length (requested st)) (requested st1)) (BASE @ boxscore_path gid)"

text \<open>
  A network for an example run: the schedule of the first month lists two dates, the other
  months fail, the scoreboards of both dates list the same game, and its boxscore fails.
\<close>

definition example_world :: world where
  "example_world n u =
     (if n = 0 then Response 200 (Some (JDict [(''gameDates'', JList
          [JDict [(''contest_date'', JStr ''09-01-2024''), (''games'', JInt 1)],
           JDict [(''contest_date'', JStr ''09-02-2024''), (''games'', JInt 1)]])]))
      else if n = 4 \<or> n = 5 then Response 200 (Some (JDict [(''games'', JList
          [JDict [(''game'', JDict [(''url'', JStr ''/game/6348656'')])]])]))
      else Response 404 None)"

text \<open>
  A network for a run that an exception ends: the first date lists two games, the second
  date the second of them again, and the boxscore of the first game has a team block with
  no \<open>teamId\<close>.
\<close>

definition failing_world :: world where
  "failing_world n u =
     (if n = 0 then Response 200 (Some (JDict [(''gameDates'', JList
          [JDict [(''contest_date'', JStr ''09-01-2024''), (''games'', JInt 2)],
           JDict [(''contest_date'', JStr ''09-02-2024''), (''games'', JInt 1)]])]))
      else if n = 4 then Response 200 (Some (JDict [(''games'', JList
          [JDict [(''game'', JDict [(''url'', JStr ''/game/6348656'')])],
           JDict [(''game'', JDict [(''url'', JStr ''/game/6348657'')])]])]))
      else if n = 5 then Response 200 (Some (JDict [(''games'', JList
          [JDict [(''game'', JDict [(''url'', JStr ''/game/6348657'')])]])]))
      else if n = 6 then Response 200 (Some (JDict [(''teamBoxscore'', JList
          [JDict [(''playerStats'', JList [])]])]))
      else Response 404 None)"

text \<open>
  A table the aggregator can work on: each identity column, \<open>game_id\<close> and \<open>team_won\<close>
  is the label (case aside) of exactly one column, no two statistic columns share a label,
  no win flag is a text, a list or a dict, and no identity cell is a list or a dict.
\<close>

definition usable :: "frame \<Rightarrow> bool" where
  "usable df =
     (let cols = map lower (columns df) in
      list_all (\<lambda>c. count_list cols c = 1) (group_cols @ [''game_id'', ''team_won'']) \<and>
      distinct (filter (\<lambda>c. startswith c ''stat_'') cols) \<and>
      list_all (\<lambda>r. case cell_at r (first_index cols ''team_won'') of
                        Txt s \<Rightarrow> False | Obj j \<Rightarrow> False | _ \<Rightarrow> True) (rows df) \<and>
      list_all (\<lambda>r. list_all (\<lambda>c. \<not> unhashable (cell_at r (first_index cols c))) group_cols)
        (rows df))"

text \<open>
  The identity of an input row, and the rows of a table that have a given identity: the
  group of that identity.
\<close>

definition identity :: "frame \<Rightarrow> cell list \<Rightarrow> cell list" where
  "identity df r =
     map (\<lambda>c. key_cell (cell_at r (first_index (map lower (columns df)) c))) group_cols"

definition group_rows :: "frame \<Rightarrow> cell list \<Rightarrow> cell list list" where
  "group_rows df k = filter (\<lambda>r. identity df r = k) (rows df)"


text \<open>
  A library that computes exactly and parses no text, for the examples, and example
  tables. The first table has two games of one player and one game of another; the second
  has no assists column; in the third the only row has no game identifier.
\<close>

definition numeric_cell :: "cell \<Rightarrow> num" where
  "numeric_cell c = (case c of Val v \<Rightarrow> v | Flag b \<Rightarrow> Fin (if b then 1 else 0) | _ \<Rightarrow> NaN)"

definition exact_sum :: "num list \<Rightarrow> num" where
  "exact_sum vs =
     foldl (\<lambda>a v. case (a, v) of (Fin x, Fin y) \<Rightarrow> Fin (x + y) | _ \<Rightarrow> NaN) (Fin 0)
       (filter (\<lambda>v. v \<noteq> NaN) vs)"

definition exact :: pandas where
  "exact = \<lparr>to_numeric = numeric_cell, group_sum = exact_sum,
             elem_add = (\<lambda>a b. Fin (a + b)), elem_half = (\<lambda>a. Fin (a / 2)),
             elem_div = (\<lambda>a b. Fin (a / b))\<rparr>"



definition example_frame_no_id :: frame where
  "example_frame_no_id =
     \<lparr>columns = [''player_first'', ''player_last'', ''team_name'', ''team_seo'', ''season'',
                 ''game_id'', ''team_won'', ''stat_minutesplayed''],
      rows = [[Txt ''Ann'', Txt ''Lee'', Txt ''Duke'', Txt ''duke'', Txt ''2024'',
               Val NaN, Flag True, Val (Fin 90)]]\<rparr>"

text \<open>
  A collected row carries its game identifier: the column \<open>game_id\<close> holds a text, and no
  other column of the row has that label when case is set aside.
\<close>

definition carries_id :: "row \<Rightarrow> bool" where
  "carries_id row =
     ((\<exists>g. map_of row ''game_id'' = Some (JStr g)) \<and>
      (\<forall>k \<in> fst ` set row. lower k = ''game_id'' \<longrightarrow> k = ''game_id''))"

text \<open>
  A network for a run that collects one row: one date, one game, and a boxscore with one
  team block and one player record; with the \<open>meta\<close> of the game and the row collected.
\<close>

definition played_world :: world where
  "played_world n u =
     (if n = 0 then Response 200 (Some (JDict [(''gameDates'', JList
          [JDict [(''contest_date'', JStr ''09-01-2024''), (''games'', JInt 1)]])]))
      else if n = 4 then Response 200 (Some (JDict [(''games'', JList
          [JDict [(''game'', JDict [(''url'', JStr ''/game/6348656''),
                                    (''startDate'', JStr ''2024-09-01'')])]])]))
      else if n = 5 then Response 200 (Some (JDict [(''teamBoxscore'', JList
          [JDict [(''teamId'', JInt 7), (''playerStats'', JList [JDict []])]])]))
      else Response 404 None)"

definition played_meta :: json where
  "played_meta =
     JDict [(''game_id'', JStr ''6348656''), (''game_date'', JStr ''2024-09-01''),
            (''home_team'', JStr []), (''home_seo'', JStr []), (''home_score'', JStr []),
            (''home_winner'', JBool False), (''home_record'', JStr []),
            (''away_team'', JStr []), (''away_seo'', JStr []), (''away_score'', JStr []),
            (''away_winner'', JBool False), (''away_record'', JStr []),
            (''game_state'', JStr [])]"

definition played_row :: row where
  "played_row =
     [(''game_id'', JStr ''6348656''), (''game_date'', JStr ''2024-09-01''),
      (''season'', JStr ''2024''), (''player_first'', JStr []), (''player_last'', JStr []),
      (''player_num'', JStr []), (''position'', JStr []), (''stat_type'', JStr []),
      (''category'', JStr []), (''team_name'', JStr []), (''team_seo'', JStr []),
      (''is_home'', JBool False), (''team_won'', JBool False),
      (''team_record_at_game'', JStr [])]"

section \<open>Properties of the fetch wrapper\<close>

text \<open>
  C8. \<open>get\<close> has no exceptional result. It returns \<open>None\<close> when the request times out,
  when the connection fails and when the status is not 200; a result other than \<open>None\<close>
  is the parsed body of a response whose status is 200.
\<close>

theorem get_none_unless_200:
  "(w (length (requested st)) (BASE @ path) = Raises Timeout \<longrightarrow> fst (get w path st) = JNull) \<and>
   (w (length (requested st)) (BASE @ path) = Raises ConnectionError \<longrightarrow>
       fst (get w path st) = JNull) \<and>
   (\<forall>status body. w (length (requested st)) (BASE @ path) = Response status body \<and> status \<noteq> 200
       \<longrightarrow> fst (get w path st) = JNull) \<and>
   (fst (get w path st) \<noteq> JNull \<longrightarrow>
       w (length (requested st)) (BASE @ path) = Response 200 (Some (fst (get w path st))))"
  by (auto simp: get_def get_try_def Let_def split: outcome.splits option.splits)

theorem get_none_unless_200_witness:
  "fst (get (\<lambda>n u. Raises Timeout) ''/x'' \<lparr>requested = [], sleeps = 0\<rparr>) = JNull \<and>
   fst (get (\<lambda>n u. Raises ConnectionError) ''/x'' \<lparr>requested = [], sleeps = 0\<rparr>) = JNull \<and>
   fst (get (\<lambda>n u. Response 404 (Some (JInt 1))) ''/x'' \<lparr>requested = [], sleeps = 0\<rparr>) = JNull \<and>
   fst (get (\<lambda>n u. Response 200 (Some (JInt 1))) ''/x'' \<lparr>requested = [], sleeps = 0\<rparr>) = JInt 1"
  using get_none_unless_200 [of "\<lambda>n u. Raises Timeout" "\<lparr>requested = [], sleeps = 0\<rparr>" "''/x''"]
    get_none_unless_200 [of "\<lambda>n u. Raises ConnectionError" "\<lparr>requested = [], sleeps = 0\<rparr>" "''/x''"]
    get_none_unless_200 [of "\<lambda>n u. Response 404 (Some (JInt 1))" "\<lparr>requested = [], sleeps = 0\<rparr>" "''/x''"]
    get_none_unless_200 [of "\<lambda>n u. Response 200 (Some (JInt 1))" "\<lparr>requested = [], sleeps = 0\<rparr>" "''/x''"]
  by (simp add: get_def get_try_def sleep_def request_def)

section \<open>Properties of the schedule walker\<close>

lemma digit_not_dash: "digit_char c \<Longrightarrow> c \<noteq> CHR ''-''"
  by (auto simp: digit_char_def)

lemma length10:
  "length d = 10 \<Longrightarrow> \<exists>a b c e f g h i j k. d = [a, b, c, e, f, g, h, i, j, k]"
  by (auto simp: length_Suc_conv eval_nat_numeral)

lemma well_formed_date_shape:
  "well_formed_date d \<Longrightarrow>
     \<exists>a b e f h i j k. d = [a, b, CHR ''-'', e, f, CHR ''-'', h, i, j, k] \<and>
        list_all digit_char [a, b, e, f, h, i, j, k]"
proof -
  assume wf: "well_formed_date d"
  then have "length d = 10" by (simp add: well_formed_date_def)
  from length10 [OF this] obtain a b c e f g h i j k
    where d: "d = [a, b, c, e, f, g, h, i, j, k]" by auto
  with wf show ?thesis by (simp add: well_formed_date_def eval_nat_numeral)
qed

lemma reformat_well_formed:
  "well_formed_date d \<Longrightarrow>
     reformat_date d = Some (drop 6 d @ ''/'' @ take 2 d @ ''/'' @ take 2 (drop 3 d))"
proof -
  assume "well_formed_date d"
  then obtain a b e f h i j k where d: "d = [a, b, CHR ''-'', e, f, CHR ''-'', h, i, j, k]"
    and dg: "list_all digit_char [a, b, e, f, h, i, j, k]"
    using well_formed_date_shape by blast
  from dg have "a \<noteq> CHR ''-''" "b \<noteq> CHR ''-''" "e \<noteq> CHR ''-''" "f \<noteq> CHR ''-''"
    "h \<noteq> CHR ''-''" "i \<noteq> CHR ''-''" "j \<noteq> CHR ''-''" "k \<noteq> CHR ''-''"
    by (auto dest: digit_not_dash)
  then show ?thesis by (simp add: d reformat_date_def)
qed

lemma restore_reformat:
  "well_formed_date d \<Longrightarrow> restore_date (the (reformat_date d)) = d"
proof -
  assume wf: "well_formed_date d"
  then obtain a b e f h i j k where d: "d = [a, b, CHR ''-'', e, f, CHR ''-'', h, i, j, k]"
    using well_formed_date_shape by blast
  show ?thesis
    unfolding reformat_well_formed [OF wf] by (simp add: d restore_date_def)
qed

text \<open>
  C6. The walker turns the well-formed date \<open>MM-DD-YYYY\<close> into \<open>YYYY/MM/DD\<close>, as in
  \<open>09-01-2024\<close> to \<open>2024/09/01\<close>; an entry of the schedule with games on such a date
  contributes exactly that text; the original date is read back from the result, and
  different well-formed dates give different results.
\<close>

theorem reformat_date_bijection:
  "reformat_date ''09-01-2024'' = Some ''2024/09/01'' \<and>
   (\<forall>d. well_formed_date d \<longrightarrow>
      reformat_date d = Some (drop 6 d @ ''/'' @ take 2 d @ ''/'' @ take 2 (drop 3 d)) \<and>
      date_entry (JDict [(''games'', JInt 1), (''contest_date'', JStr d)]) = Inr (reformat_date d) \<and>
      restore_date (the (reformat_date d)) = d) \<and>
   inj_on reformat_date {d. well_formed_date d}"
proof (intro conjI allI impI)
  show "reformat_date ''09-01-2024'' = Some ''2024/09/01''"
    by (simp add: reformat_date_def)
next
  fix d assume "well_formed_date d"
  then show "reformat_date d = Some (drop 6 d @ ''/'' @ take 2 d @ ''/'' @ take 2 (drop 3 d))"
    by (rule reformat_well_formed)
next
  fix d assume wf: "well_formed_date d"
  then have "d \<noteq> []" by (auto simp: well_formed_date_def)
  then show "date_entry (JDict [(''games'', JInt 1), (''contest_date'', JStr d)]) = Inr (reformat_date d)"
    by (simp add: date_entry_def bindE_def)
next
  fix d assume "well_formed_date d"
  then show "restore_date (the (reformat_date d)) = d" by (rule restore_reformat)
next
  show "inj_on reformat_date {d. well_formed_date d}"
  proof (rule inj_onI)
    fix x y assume x: "x \<in> {d. well_formed_date d}" and y: "y \<in> {d. well_formed_date d}"
      and eq: "reformat_date x = reformat_date y"
    from x have "restore_date (the (reformat_date x)) = x" by (simp add: restore_reformat)
    moreover from y have "restore_date (the (reformat_date y)) = y" by (simp add: restore_reformat)
    ultimately show "x = y" using eq by metis
  qed
qed

theorem reformat_date_bijection_witness:
  "well_formed_date ''09-01-2024'' \<and> well_formed_date ''10-01-2024'' \<and>
   reformat_date ''09-01-2024'' = Some ''2024/09/01'' \<and>
   restore_date ''2024/09/01'' = ''09-01-2024'' \<and>
   reformat_date ''09-01-2024'' \<noteq> reformat_date ''10-01-2024''"
proof -
  have a: "well_formed_date ''09-01-2024''"
    by (simp add: well_formed_date_def digit_char_def eval_nat_numeral)
  have b: "well_formed_date ''10-01-2024''"
    by (simp add: well_formed_date_def digit_char_def eval_nat_numeral)
  from reformat_date_bijection a
  have c: "reformat_date ''09-01-2024'' = Some ''2024/09/01''"
    and d: "restore_date (the (reformat_date ''09-01-2024'')) = ''09-01-2024''"
    by blast+
  from reformat_date_bijection a b have "reformat_date ''09-01-2024'' \<noteq> reformat_date ''10-01-2024''"
    by (auto simp: inj_on_def)
  with a b c d show ?thesis by simp
qed

section \<open>Properties of the scoreboard expander\<close>

lemma split_on_length: "length (split_on c s) = Suc (length (filter (\<lambda>x. x = c) s))"
  by (induction s) (auto split: list.splits)

lemma split_on_not_Nil: "split_on c s \<noteq> []"
  using split_on_length [of c s] by auto

lemma split_on_absent: "c \<notin> set s \<Longrightarrow> split_on c s = [s]"
  by (induction s) auto

lemma last_split_on_Cons:
  "c \<in> set s \<Longrightarrow> last (split_on c (x # s)) = last (split_on c s)"
proof -
  assume "c \<in> set s"
  then have "filter (\<lambda>x. x = c) s \<noteq> []" by (auto simp: filter_empty_conv)
  then have "2 \<le> length (split_on c s)" by (cases "filter (\<lambda>x. x = c) s") (auto simp: split_on_length)
  then obtain p q ps where "split_on c s = p # q # ps"
    by (cases "split_on c s"; cases "tl (split_on c s)") auto
  then show ?thesis by simp
qed

lemma last_split_on: "last (split_on c s) = rev (takeWhile (\<lambda>x. x \<noteq> c) (rev s))"
proof (induction s)
  case Nil
  then show ?case by simp
next
  case (Cons x s)
  show ?case
  proof (cases "c \<in> set s")
    case True
    then have "takeWhile (\<lambda>x. x \<noteq> c) (rev s @ [x]) = takeWhile (\<lambda>x. x \<noteq> c) (rev s)"
      by (intro takeWhile_append1 [where x = c]) auto
    moreover have "last (split_on c (x # s)) = last (split_on c s)"
      by (rule last_split_on_Cons [OF True])
    ultimately show ?thesis by (simp only: Cons.IH rev.simps)
  next
    case False
    then have "takeWhile (\<lambda>x. x \<noteq> c) (rev s @ [x]) = rev s @ takeWhile (\<lambda>x. x \<noteq> c) [x]"
      by (intro takeWhile_append2) auto
    with False show ?thesis by (auto simp: split_on_absent)
  qed
qed

lemma takeWhile_snoc_stop: "\<not> P c \<Longrightarrow> takeWhile P (l @ [c]) = takeWhile P l"
  by (induction l) auto

lemma take_drop_snoc:
  "takeWhile (\<lambda>x. x \<noteq> c) (dropWhile (\<lambda>x. x = c) (ys @ [c]))
   = takeWhile (\<lambda>x. x \<noteq> c) (dropWhile (\<lambda>x. x = c) ys)"
  by (induction ys) (auto simp: takeWhile_snoc_stop)

lemma strip_char_segment:
  "takeWhile (\<lambda>x. x \<noteq> c) (dropWhile (\<lambda>x. x = c) (rev (dropWhile (\<lambda>x. x = c) u)))
   = takeWhile (\<lambda>x. x \<noteq> c) (dropWhile (\<lambda>x. x = c) (rev u))"
  by (induction u) (auto simp: take_drop_snoc)

lemma full_id_of_final_segment: "full_id_of u = Inr (final_segment u)"
proof -
  have "split_on CHR ''/'' (strip_char CHR ''/'' u) \<noteq> []" by (rule split_on_not_Nil)
  then have "full_id_of u = Inr (last (split_on CHR ''/'' (strip_char CHR ''/'' u)))"
    by (simp add: full_id_of_def last_item_def split: list.splits)
  then show ?thesis
    by (simp add: last_split_on strip_char_def final_segment_def strip_char_segment)
qed

lemma game_entry_text:
  assumes "dict_get item ''game'' (JDict []) = Inr game"
    and "dict_get game ''url'' (JStr []) = Inr (JStr u)"
  shows "game_entry item =
     (if isdigit (final_segment u)
      then bindE (build_meta (final_segment u) game) (\<lambda>meta. Inr (Some (final_segment u, meta)))
      else Inr None)"
proof (cases "u = []")
  case True
  then show ?thesis using assms by (simp add: game_entry_def bindE_def final_segment_def isdigit_def)
next
  case False
  then show ?thesis
    using assms by (simp add: game_entry_def bindE_def full_id_of_final_segment)
qed

lemma game_entry_kept:
  "game_entry item = Inr (Some (gid, meta)) \<Longrightarrow> isdigit gid"
  by (auto simp: game_entry_def bindE_def split: sum.splits if_splits)

lemma game_entries_digits:
  "game_entries items results = Inr out \<Longrightarrow> list_all (\<lambda>p. isdigit (fst p)) results
     \<Longrightarrow> list_all (\<lambda>p. isdigit (fst p)) out"
proof (induction items arbitrary: results)
  case Nil
  then show ?case by simp
next
  case (Cons item items)
  from Cons.prems(1) obtain r where r: "game_entry item = Inr r"
    and rest: "game_entries items (case r of Some p \<Rightarrow> results @ [p] | None \<Rightarrow> results) = Inr out"
    by (auto simp: bindE_def split: sum.splits)
  have "list_all (\<lambda>p. isdigit (fst p)) (case r of Some p \<Rightarrow> results @ [p] | None \<Rightarrow> results)"
    using Cons.prems(2) r by (cases r) (auto dest: game_entry_kept)
  with Cons.IH rest show ?case by blast
qed

lemma get_game_ids_digits:
  "get_game_ids_for_date w date_path st = (Inr results, st1) \<Longrightarrow>
     list_all (\<lambda>p. isdigit (fst p)) results"
  by (auto simp: get_game_ids_for_date_def bindE_def split: prod.splits if_splits sum.splits
        dest: game_entries_digits)

text \<open>
  What the loop body does with a game entry whose \<open>url\<close> is a text \<open>u\<close> (or is absent,
  \<open>u\<close> then being empty): the entry is dropped when \<open>isdigit\<close> rejects the final path
  segment of \<open>u\<close>; otherwise it is kept under that segment, provided that building
  \<open>meta\<close> raises nothing.
\<close>

theorem game_entry_numeric_segment:
  assumes "dict_get item ''game'' (JDict []) = Inr game"
    and "dict_get game ''url'' (JStr []) = Inr (JStr u)"
  shows "(\<not> isdigit (final_segment u) \<longrightarrow> game_entry item = Inr None) \<and>
         (\<forall>meta. isdigit (final_segment u) \<and> build_meta (final_segment u) game = Inr meta \<longrightarrow>
            game_entry item = Inr (Some (final_segment u, meta))) \<and>
         (\<forall>gid meta. game_entry item = Inr (Some (gid, meta)) \<longrightarrow>
            gid = final_segment u \<and> isdigit gid \<and> build_meta gid game = Inr meta)"
  unfolding game_entry_text [OF assms]
  by (auto simp: bindE_def split: sum.splits)

theorem game_entry_numeric_segment_witness:
  "isdigit (final_segment ''/game/6348656'') \<and>
   (\<exists>meta. game_entry (JDict [(''game'', JDict [(''url'', JStr ''/game/6348656'')])])
      = Inr (Some (''6348656'', meta))) \<and>
   \<not> isdigit (final_segment ''/game/abc'') \<and>
   game_entry (JDict [(''game'', JDict [(''url'', JStr ''/game/abc'')])]) = Inr None"
proof -
  let ?g1 = "JDict [(''url'', JStr ''/game/6348656'')]"
  let ?g2 = "JDict [(''url'', JStr ''/game/abc'')]"
  have seg1: "final_segment ''/game/6348656'' = ''6348656''" by (simp add: final_segment_def)
  have seg2: "final_segment ''/game/abc'' = ''abc''" by (simp add: final_segment_def)
  have d1: "isdigit (final_segment ''/game/6348656'')"
    unfolding seg1 by (simp add: isdigit_def isdigit_char_def digit_char_def)
  have d2: "\<not> isdigit (final_segment ''/game/abc'')"
    unfolding seg2 by (simp add: isdigit_def isdigit_char_def digit_char_def)
  obtain meta where m: "build_meta (final_segment ''/game/6348656'') ?g1 = Inr meta"
    by (simp add: build_meta_def get2_def get3_def bindE_def)
  have a1: "dict_get (JDict [(''game'', ?g1)]) ''game'' (JDict []) = Inr ?g1" by simp
  have b1: "dict_get ?g1 ''url'' (JStr []) = Inr (JStr ''/game/6348656'')" by simp
  have a2: "dict_get (JDict [(''game'', ?g2)]) ''game'' (JDict []) = Inr ?g2" by simp
  have b2: "dict_get ?g2 ''url'' (JStr []) = Inr (JStr ''/game/abc'')" by simp
  from game_entry_numeric_segment [OF a1 b1] d1 m
  have "game_entry (JDict [(''game'', ?g1)]) = Inr (Some (final_segment ''/game/6348656'', meta))"
    by blast
  moreover from game_entry_numeric_segment [OF a2 b2] d2
  have "game_entry (JDict [(''game'', ?g2)]) = Inr None" by blast
  ultimately show ?thesis using d1 d2 seg1 by auto
qed

text \<open>
  C5. The expander does not keep exactly the entries whose final path segment is a
  non-empty run of decimal digits. \<open>str.isdigit\<close> also accepts the superscript digits, so
  the entry with the URL \<open>/game/12\<close> followed by U+00B2 is kept, under an identifier that
  is not a number. And an entry with an all-digit segment whose \<open>home\<close> is \<open>null\<close> is not
  kept: building \<open>meta\<close> raises, and the whole scoreboard is lost.
\<close>

theorem superscript_digit_kept:
  "fst (get_game_ids_for_date
          (\<lambda>n u. Response 200 (Some (JDict [(''games'', JList
             [JDict [(''game'', JDict [(''url'', JStr (''/game/12'' @ [CHR 0xB2]))])]])])))
          ''2024/09/01'' \<lparr>requested = [], sleeps = 0\<rparr>)
     = Inr [(''12'' @ [CHR 0xB2],
             JDict [(''game_id'', JStr (''12'' @ [CHR 0xB2])), (''game_date'', JStr []),
                    (''home_team'', JStr []), (''home_seo'', JStr []), (''home_score'', JStr []),
                    (''home_winner'', JBool False), (''home_record'', JStr []),
                    (''away_team'', JStr []), (''away_seo'', JStr []), (''away_score'', JStr []),
                    (''away_winner'', JBool False), (''away_record'', JStr []),
                    (''game_state'', JStr [])])] \<and>
   list_all digit_char (''12'' @ [CHR 0xB2]) = False \<and>
   py_int (''12'' @ [CHR 0xB2]) = Inl ValueError \<and>
   fst (get_game_ids_for_date
          (\<lambda>n u. Response 200 (Some (JDict [(''games'', JList
             [JDict [(''game'', JDict [(''url'', JStr ''/game/6348656''), (''home'', JNull)])]])])))
          ''2024/09/01'' \<lparr>requested = [], sleeps = 0\<rparr>)
     = Inl AttributeError"
  by code_simp

section \<open>Properties of the boxscore flattener\<close>

subsection \<open>Rows as dicts\<close>

lemma map_of_replace:
  "map_of (map (\<lambda>kv. if fst kv = k then (k, v) else kv) row) c =
     (if c = k then map_option (\<lambda>u. v) (map_of row k) else map_of row c)"
  by (induction row) auto

lemma map_of_row_set: "map_of (row_set row k v) = (map_of row)(k \<mapsto> v)"
proof (cases "k \<in> fst ` set row")
  case True
  then obtain u where "map_of row k = Some u"
    using map_of_eq_None_iff [of row k] by (cases "map_of row k") auto
  with True show ?thesis by (auto simp: row_set_def fun_eq_iff map_of_replace)
next
  case False
  then have "map_of row k = None" by (simp add: map_of_eq_None_iff)
  with False show ?thesis
    by (auto simp: row_set_def fun_eq_iff map_add_def split: option.splits)
qed

lemma keys_row_set: "fst ` set (row_set row k v) = insert k (fst ` set row)"
proof -
  have "map fst (map (\<lambda>kv. if fst kv = k then (k, v) else kv) row) = map fst row"
    by (induction row) auto
  then have "fst ` set (map (\<lambda>kv. if fst kv = k then (k, v) else kv) row) = fst ` set row"
    by (metis set_map)
  then show ?thesis by (auto simp: row_set_def)
qed

lemma unknown_stats_keeps:
  "c \<in> fst ` set row \<Longrightarrow> map_of (unknown_stats items row) c = map_of row c"
proof (induction items arbitrary: row)
  case Nil
  then show ?case by simp
next
  case (Cons kv items)
  obtain k v where kv: "kv = (k, v)" by (cases kv)
  show ?case
  proof (cases "startswith k ''__'' \<or> k \<in> set identity_fields \<or> ''stat_'' @ lower k \<in> fst ` set row")
    case True
    with Cons show ?thesis by (auto simp: kv)
  next
    case False
    then have ne: "''stat_'' @ lower k \<noteq> c" using Cons.prems by auto
    have "c \<in> fst ` set (row_set row (''stat_'' @ lower k) v)"
      using Cons.prems by (simp add: keys_row_set)
    from Cons.IH [OF this] False ne show ?thesis
      by (simp add: kv map_of_row_set)
  qed
qed

lemma known_stats_value:
  "map_of (known_stats fs player row) c =
     (if filter (\<lambda>g. ''stat_'' @ lower g = c \<and> g \<in> dom (map_of player)) fs = []
      then map_of row c
      else map_of player
             (last (filter (\<lambda>g. ''stat_'' @ lower g = c \<and> g \<in> dom (map_of player)) fs)))"
proof (induction fs arbitrary: row)
  case Nil
  then show ?case by simp
next
  case (Cons f fs)
  show ?case
  proof (cases "map_of player f")
    case None
    then have "f \<notin> dom (map_of player)" by (simp add: domIff)
    with None Cons show ?thesis by simp
  next
    case (Some v)
    then have "f \<in> dom (map_of player)" by (simp add: domIff)
    with Some Cons show ?thesis
      by (auto simp: map_of_row_set)
  qed
qed

lemma known_stats_keys:
  "fst ` set row \<subseteq> fst ` set (known_stats fs player row)"
proof (induction fs arbitrary: row)
  case Nil
  then show ?case by simp
next
  case (Cons f fs)
  have "fst ` set row \<subseteq> fst ` set (case map_of player f of
          Some v \<Rightarrow> row_set row (''stat_'' @ lower f) v | None \<Rightarrow> row)"
    by (auto simp: keys_row_set split: option.splits)
  with Cons.IH show ?case by (simp del: ) blast
qed

lemma recognised_stat_column:
  assumes "player_row game_id meta team_name team_seo is_home won record (JDict player) = Inr row"
    and "field \<in> set SOCCER_STAT_FIELDS"
    and "field \<in> dom (map_of player)"
  shows "map_of row (''stat_'' @ lower field) = map_of player (winning_variant player field)"
proof -
  let ?c = "''stat_'' @ lower field"
  from assms(1) obtain row0 where
    row: "row = unknown_stats player (known_stats SOCCER_STAT_FIELDS player row0)"
    by (auto simp: player_row_def bindE_def Let_def split: sum.splits if_splits)
  define gs where
    "gs = filter (\<lambda>g. ''stat_'' @ lower g = ?c \<and> g \<in> dom (map_of player)) SOCCER_STAT_FIELDS"
  from assms(2,3) have "field \<in> set gs" by (simp add: gs_def)
  then have ne: "gs \<noteq> []" by auto
  have "map_of (known_stats SOCCER_STAT_FIELDS player row0) ?c =
          (if gs = [] then map_of row0 ?c else map_of player (last gs))"
    unfolding gs_def by (rule known_stats_value)
  with ne have val: "map_of (known_stats SOCCER_STAT_FIELDS player row0) ?c = map_of player (last gs)"
    by simp
  have "last gs \<in> set gs" using ne by (rule last_in_set)
  then have "last gs \<in> dom (map_of player)" by (simp add: gs_def)
  then have "map_of (known_stats SOCCER_STAT_FIELDS player row0) ?c \<noteq> None"
    unfolding val by (simp add: domIff)
  then have "?c \<in> fst ` set (known_stats SOCCER_STAT_FIELDS player row0)"
    by (simp add: map_of_eq_None_iff)
  from unknown_stats_keeps [OF this] val show ?thesis
    by (simp add: row winning_variant_def gs_def)
qed

lemma player_row_total:
  "subscript meta ''game_date'' = Inr (JStr d) \<Longrightarrow>
     \<exists>row. player_row game_id meta team_name team_seo is_home won record (JDict p) = Inr row"
  by (simp add: player_row_def bindE_def)

text \<open>
  C10. The capture of unknown fields never changes a column that the row already has, so a
  column written from a recognised field keeps its value; and the column of a recognised
  field that the player record holds carries the value of the variant of that name which
  stands last in \<open>SOCCER_STAT_FIELDS\<close> among those the record holds: with both \<open>goals\<close>
  and \<open>Goals\<close> present, the value of \<open>Goals\<close>.
\<close>

theorem recognised_stat_column_kept:
  "(\<forall>items r c. c \<in> fst ` set r \<longrightarrow> map_of (unknown_stats items r) c = map_of r c) \<and>
   (\<forall>game_id meta team_name team_seo is_home won record player row field.
      player_row game_id meta team_name team_seo is_home won record (JDict player) = Inr row \<and>
      field \<in> set SOCCER_STAT_FIELDS \<and> field \<in> dom (map_of player) \<longrightarrow>
      map_of row (''stat_'' @ lower field) = map_of player (winning_variant player field))"
proof (intro conjI allI impI)
  fix items :: "(string \<times> json) list" and r :: row and c
  assume "c \<in> fst ` set r"
  then show "map_of (unknown_stats items r) c = map_of r c" by (rule unknown_stats_keeps)
next
  fix game_id meta team_name team_seo is_home won rcd player row field
  assume "player_row game_id meta team_name team_seo is_home won rcd (JDict player) = Inr row \<and>
      field \<in> set SOCCER_STAT_FIELDS \<and> field \<in> dom (map_of player)"
  then show "map_of row (''stat_'' @ lower field) = map_of player (winning_variant player field)"
    by (elim conjE) (rule recognised_stat_column)
qed

theorem recognised_stat_column_kept_witness:
  "winning_variant [(''goals'', JInt 1), (''Goals'', JInt 2), (''GOALS'', JInt 3)] ''goals'' = ''Goals'' \<and>
   (\<exists>row. player_row ''1'' (JDict [(''game_date'', JStr ''2024-09-01'')]) (JStr ''T'') (JStr ''t'')
        True (JBool True) (JStr ''1-0'')
        (JDict [(''goals'', JInt 1), (''Goals'', JInt 2), (''GOALS'', JInt 3)]) = Inr row \<and>
      map_of row ''stat_goals'' = Some (JInt 2))"
proof -
  let ?p = "[(''goals'', JInt 1), (''Goals'', JInt 2), (''GOALS'', JInt 3)]"
  have lg: "lower ''goals'' = ''goals''" "lower ''Goals'' = ''goals''"
    by code_simp+
  have wv: "winning_variant ?p ''goals'' = ''Goals''"
    by code_simp
  have "subscript (JDict [(''game_date'', JStr ''2024-09-01'')]) ''game_date'' = Inr (JStr ''2024-09-01'')"
    by simp
  from player_row_total [OF this]
  obtain row where row: "player_row ''1'' (JDict [(''game_date'', JStr ''2024-09-01'')]) (JStr ''T'')
      (JStr ''t'') True (JBool True) (JStr ''1-0'') (JDict ?p) = Inr row"
    by blast
  have f: "''goals'' \<in> set SOCCER_STAT_FIELDS" by code_simp
  have d: "''goals'' \<in> dom (map_of ?p)" by simp
  have "map_of row (''stat_'' @ lower ''goals'') = map_of ?p (winning_variant ?p ''goals'')"
    by (rule recognised_stat_column_kept [THEN conjunct2, rule_format])
      (rule conjI, rule row, rule conjI, rule f, rule d)
  then have "map_of row ''stat_goals'' = Some (JInt 2)" by (simp add: wv lg)
  with row wv show ?thesis by blast
qed

subsection \<open>Home and away\<close>

lemma known_stats_other:
  "\<forall>g. ''stat_'' @ g \<noteq> c \<Longrightarrow> map_of (known_stats fs player row) c = map_of row c"
  by (simp add: known_stats_value)

lemma player_row_fixed:
  assumes "player_row game_id meta team_name team_seo is_home won record player = Inr row"
  shows "map_of row ''team_seo'' = Some team_seo \<and> map_of row ''is_home'' = Some (JBool is_home) \<and>
         map_of row ''team_won'' = Some won \<and> map_of row ''team_record_at_game'' = Some record \<and>
         (\<exists>kvs. meta = JDict kvs)"
proof -
  from assms obtain items game_date season where
    row: "row = unknown_stats items (known_stats SOCCER_STAT_FIELDS items
         [(''game_id'', JStr game_id),
          (''game_date'', game_date),
          (''season'', season),
          (''player_first'', case map_of items ''firstName'' of Some v \<Rightarrow> v | None \<Rightarrow> JStr []),
          (''player_last'', case map_of items ''lastName'' of Some v \<Rightarrow> v | None \<Rightarrow> JStr []),
          (''player_num'', case map_of items ''number'' of Some v \<Rightarrow> v | None \<Rightarrow> JStr []),
          (''position'', case map_of items ''position'' of Some v \<Rightarrow> v | None \<Rightarrow> JStr []),
          (''stat_type'', case map_of items ''__typename'' of Some v \<Rightarrow> v | None \<Rightarrow> JStr []),
          (''category'', case map_of items ''category'' of Some v \<Rightarrow> v | None \<Rightarrow> JStr []),
          (''team_name'', team_name),
          (''team_seo'', team_seo),
          (''is_home'', JBool is_home),
          (''team_won'', won),
          (''team_record_at_game'', record)])" (is "row = unknown_stats items (known_stats _ _ ?row0)")
    and sub: "subscript meta ''game_date'' = Inr game_date"
    by (auto simp: player_row_def bindE_def Let_def split: sum.splits)
  from sub have meta: "\<exists>kvs. meta = JDict kvs" by (cases meta) auto
  have keep: "map_of row c = map_of ?row0 c" if "\<forall>g. ''stat_'' @ g \<noteq> c" "c \<in> fst ` set ?row0" for c
  proof -
    have "c \<in> fst ` set (known_stats SOCCER_STAT_FIELDS items ?row0)"
      using that(2) known_stats_keys by blast
    then show ?thesis unfolding row by (simp only: unknown_stats_keeps known_stats_other [OF that(1)])
  qed
  have "map_of row ''team_seo'' = Some team_seo" by (subst keep) simp_all
  moreover have "map_of row ''is_home'' = Some (JBool is_home)" by (subst keep) simp_all
  moreover have "map_of row ''team_won'' = Some won" by (subst keep) simp_all
  moreover have "map_of row ''team_record_at_game'' = Some record" by (subst keep) simp_all
  ultimately show ?thesis using meta by blast
qed

lemma player_row_classified:
  assumes "home_away team_seo meta = Inr hw"
    and "player_row game_id meta team_name team_seo (fst hw) (fst (snd hw)) (snd (snd hw)) player = Inr row"
  shows "classified meta row"
proof -
  from player_row_fixed [OF assms(2)] obtain kvs where
    f: "map_of row ''team_seo'' = Some team_seo" "map_of row ''is_home'' = Some (JBool (fst hw))"
       "map_of row ''team_won'' = Some (fst (snd hw))"
       "map_of row ''team_record_at_game'' = Some (snd (snd hw))"
    and meta: "meta = JDict kvs" by blast
  from assms(1) show ?thesis
    unfolding classified_def
    using f by (auto simp: home_away_def bindE_def meta split: if_splits)
qed

lemma player_rows_classified:
  "home_away team_seo meta = Inr hw \<Longrightarrow>
   player_rows game_id meta team_name team_seo (fst hw) (fst (snd hw)) (snd (snd hw)) players acc = Inr out
   \<Longrightarrow> list_all (classified meta) acc \<Longrightarrow> list_all (classified meta) out"
proof (induction players arbitrary: acc)
  case Nil
  then show ?case by simp
next
  case (Cons p players)
  from Cons.prems(2) obtain row where
    r: "player_row game_id meta team_name team_seo (fst hw) (fst (snd hw)) (snd (snd hw)) p = Inr row"
    and rest: "player_rows game_id meta team_name team_seo (fst hw) (fst (snd hw)) (snd (snd hw))
                 players (acc @ [row]) = Inr out"
    by (auto simp: bindE_def split: sum.splits)
  have "list_all (classified meta) (acc @ [row])"
    using Cons.prems(3) player_row_classified [OF Cons.prems(1) r] by simp
  from Cons.IH [OF Cons.prems(1) rest this] show ?case .
qed

lemma team_block_classified:
  "team_block game_id meta teams_info team_box acc = Inr out \<Longrightarrow>
   list_all (classified meta) acc \<Longrightarrow> list_all (classified meta) out"
  by (auto simp: team_block_def bindE_def split: sum.splits if_splits
        intro: player_rows_classified)

lemma team_blocks_classified:
  "team_blocks game_id meta teams_info boxes acc = Inr out \<Longrightarrow>
   list_all (classified meta) acc \<Longrightarrow> list_all (classified meta) out"
proof (induction boxes arbitrary: acc)
  case Nil
  then show ?case by simp
next
  case (Cons b boxes)
  from Cons.prems(1) obtain acc1 where
    a: "team_block game_id meta teams_info b acc = Inr acc1"
    and rest: "team_blocks game_id meta teams_info boxes acc1 = Inr out"
    by (auto simp: bindE_def split: sum.splits)
  from Cons.IH [OF rest team_block_classified [OF a Cons.prems(2)]] show ?case .
qed

lemma boxscore_rows_classified:
  "boxscore_rows game_id meta data = Inr out \<Longrightarrow> list_all (classified meta) out"
  by (auto simp: boxscore_rows_def bindE_def split: sum.splits dest: team_blocks_classified)

text \<open>
  C4, as amended. Every row that \<open>parse_boxscore\<close> returns is a home row, with the home
  winner flag and the home record of \<open>meta\<close>, exactly when the short-code of its team is
  truthy (not empty) and equals the home short-code of \<open>meta\<close>; otherwise it is an away
  row with the away winner flag and the away record.
\<close>

theorem home_exactly_when_nonempty_match:
  assumes "parse_boxscore w game_id meta st = (Inr out, st1)" and "row \<in> set out"
  shows "\<exists>seo home won record.
        map_of row ''team_seo'' = Some seo \<and> map_of row ''team_won'' = Some won \<and>
        map_of row ''team_record_at_game'' = Some record \<and>
        dict_get meta ''home_seo'' JNull = Inr home \<and>
        (if truthy seo \<and> py_eq seo home
         then map_of row ''is_home'' = Some (JBool True) \<and>
              dict_get meta ''home_winner'' (JBool False) = Inr won \<and>
              dict_get meta ''home_record'' (JStr []) = Inr record
         else map_of row ''is_home'' = Some (JBool False) \<and>
              dict_get meta ''away_winner'' (JBool False) = Inr won \<and>
              dict_get meta ''away_record'' (JStr []) = Inr record)"
proof -
  from assms(1) have "list_all (classified meta) out"
    by (auto simp: parse_boxscore_def split: prod.splits if_splits dest: boxscore_rows_classified)
  with assms(2) have "classified meta row" by (simp add: list_all_iff)
  then show ?thesis by (simp only: classified_def)
qed

theorem home_exactly_when_nonempty_match_witness:
  "\<exists>row st1. parse_boxscore
       (\<lambda>n u. Response 200 (Some (JDict
          [(''teams'', JList [JDict [(''teamId'', JInt 7), (''seoname'', JStr ''duke'')]]),
           (''teamBoxscore'', JList [JDict [(''teamId'', JInt 7), (''playerStats'', JList [JDict []])]])])))
       ''6348656''
       (JDict [(''game_date'', JStr ''2024-09-01''), (''home_seo'', JStr ''duke''),
               (''home_winner'', JBool True), (''home_record'', JStr ''1-0''),
               (''away_winner'', JBool False), (''away_record'', JStr ''0-1'')])
       \<lparr>requested = [], sleeps = 0\<rparr> = (Inr [row], st1) \<and>
     map_of row ''team_seo'' = Some (JStr ''duke'') \<and>
     map_of row ''is_home'' = Some (JBool True) \<and>
     map_of row ''team_won'' = Some (JBool True) \<and>
     map_of row ''team_record_at_game'' = Some (JStr ''1-0'')"
proof -
  let ?meta = "JDict [(''game_date'', JStr ''2024-09-01''), (''home_seo'', JStr ''duke''),
               (''home_winner'', JBool True), (''home_record'', JStr ''1-0''),
               (''away_winner'', JBool False), (''away_record'', JStr ''0-1'')]"
  let ?team = "JDict [(''teamId'', JInt 7), (''seoname'', JStr ''duke'')]"
  let ?data = "JDict
          [(''teams'', JList [?team]),
           (''teamBoxscore'', JList [JDict [(''teamId'', JInt 7), (''playerStats'', JList [JDict []])]])]"
  let ?w = "\<lambda>(n::nat) (u::string). Response 200 (Some ?data)"
  have rt: "resolve_team [(JInt 7, ?team)]
              (JDict [(''teamId'', JInt 7), (''playerStats'', JList [JDict []])]) = Inr ?team"
    by code_simp
  have ha: "home_away (JStr ''duke'') ?meta = Inr (True, JBool True, JStr ''1-0'')"
    by (simp add: home_away_def bindE_def)
  have "subscript ?meta ''game_date'' = Inr (JStr ''2024-09-01'')" by simp
  from player_row_total [OF this]
  obtain row where row: "player_row ''6348656'' ?meta (JStr []) (JStr ''duke'') True (JBool True)
      (JStr ''1-0'') (JDict []) = Inr row"
    by blast
  have br: "boxscore_rows ''6348656'' ?meta ?data = Inr [row]"
    by (simp add: boxscore_rows_def team_block_def rt ha row bindE_def)
  obtain st1 where pb: "parse_boxscore ?w ''6348656'' ?meta \<lparr>requested = [], sleeps = 0\<rparr> = (Inr [row], st1)"
    by (simp add: parse_boxscore_def get_def get_try_def br)
  have mem: "row \<in> set [row]" by simp
  from home_exactly_when_nonempty_match [OF pb mem] obtain seo home won rcd where
    f: "map_of row ''team_seo'' = Some seo" "map_of row ''team_won'' = Some won"
       "map_of row ''team_record_at_game'' = Some rcd"
       "dict_get ?meta ''home_seo'' JNull = Inr home"
    and c: "if truthy seo \<and> py_eq seo home
         then map_of row ''is_home'' = Some (JBool True) \<and>
              dict_get ?meta ''home_winner'' (JBool False) = Inr won \<and>
              dict_get ?meta ''home_record'' (JStr []) = Inr rcd
         else map_of row ''is_home'' = Some (JBool False) \<and>
              dict_get ?meta ''away_winner'' (JBool False) = Inr won \<and>
              dict_get ?meta ''away_record'' (JStr []) = Inr rcd"
    by blast
  from player_row_fixed [OF row] have seo: "map_of row ''team_seo'' = Some (JStr ''duke'')" by blast
  with f(1) have "seo = JStr ''duke''" by simp
  moreover from f(4) have "home = JStr ''duke''" by simp
  ultimately have "map_of row ''is_home'' = Some (JBool True) \<and> won = JBool True \<and> rcd = JStr ''1-0''"
    using c by simp
  with f seo pb show ?thesis by blast
qed

text \<open>
  C4, as stated, fails where both short-codes are empty: the team's short-code equals the
  home short-code of \<open>meta\<close>, and the row is an away row with the away winner flag.
\<close>

theorem empty_short_codes_are_away:
  "\<exists>row. boxscore_rows ''6348656''
       (JDict [(''game_date'', JStr ''2024-09-01''), (''home_seo'', JStr []),
               (''home_winner'', JBool True), (''home_record'', JStr ''1-0''),
               (''away_winner'', JBool False), (''away_record'', JStr ''0-1'')])
       (JDict [(''teamBoxscore'', JList [JDict [(''teamId'', JInt 7), (''playerStats'', JList [JDict []])]])])
       = Inr [row] \<and>
     map_of row ''team_seo'' = Some (JStr []) \<and>
     py_eq (JStr []) (JStr []) \<and>
     map_of row ''is_home'' = Some (JBool False) \<and>
     map_of row ''team_won'' = Some (JBool False)"
proof -
  let ?meta = "JDict [(''game_date'', JStr ''2024-09-01''), (''home_seo'', JStr []),
               (''home_winner'', JBool True), (''home_record'', JStr ''1-0''),
               (''away_winner'', JBool False), (''away_record'', JStr ''0-1'')]"
  have rt: "resolve_team [] (JDict [(''teamId'', JInt 7), (''playerStats'', JList [JDict []])]) = Inr (JDict [])"
    by code_simp
  have ha: "home_away (JStr []) ?meta = Inr (False, JBool False, JStr ''0-1'')"
    by (simp add: home_away_def bindE_def)
  have "subscript ?meta ''game_date'' = Inr (JStr ''2024-09-01'')" by simp
  from player_row_total [OF this]
  obtain row where row: "player_row ''6348656'' ?meta (JStr []) (JStr []) False (JBool False)
      (JStr ''0-1'') (JDict []) = Inr row"
    by blast
  have "boxscore_rows ''6348656'' ?meta
       (JDict [(''teamBoxscore'', JList [JDict [(''teamId'', JInt 7), (''playerStats'', JList [JDict []])]])])
       = Inr [row]"
    by (simp add: boxscore_rows_def team_block_def rt ha row bindE_def)
  with player_row_fixed [OF row] show ?thesis by simp
qed

subsection \<open>The team lookup\<close>

text \<open>
  C1. The lookup does not fall back to empty team info on every payload. A team block
  with no \<open>teamId\<close> makes \<open>int("")\<close> raise a \<open>ValueError\<close>, and so does a \<open>teamId\<close>
  that is not numeric, even when the lookup holds it as a string key; a \<open>teams\<close> entry with
  no \<open>teamId\<close> raises a \<open>KeyError\<close>.
\<close>

theorem parse_boxscore_team_id_raises:
  "fst (parse_boxscore
          (\<lambda>n u. Response 200 (Some (JDict [(''teamBoxscore'', JList [JDict [(''playerStats'', JList [])]])])))
          ''6348656'' (JDict [(''game_date'', JStr ''2024-09-01'')]) \<lparr>requested = [], sleeps = 0\<rparr>)
     = Inl ValueError \<and>
   boxscore_rows ''6348656'' (JDict [(''game_date'', JStr ''2024-09-01'')])
     (JDict [(''teams'', JList [JDict [(''teamId'', JStr ''abc''), (''seoname'', JStr ''duke'')]]),
             (''teamBoxscore'', JList [JDict [(''teamId'', JStr ''abc''), (''playerStats'', JList [])]])])
     = Inl ValueError \<and>
   boxscore_rows ''6348656'' (JDict [(''game_date'', JStr ''2024-09-01'')])
     (JDict [(''teams'', JList [JDict [(''seoname'', JStr ''duke'')]]),
             (''teamBoxscore'', JList [])])
     = Inl KeyError"
  by code_simp

section \<open>Properties of the run\<close>

lemma get_requested: "requested (snd (get w path st)) = requested st @ [BASE @ path]"
  by (auto simp: get_def get_try_def request_def sleep_def Let_def
        split: outcome.splits option.splits)

lemma schedule_not_boxscore: "boxscore_path gid \<noteq> schedule_path season month"
  by (simp add: schedule_path_def boxscore_path_def)

lemma scoreboard_not_boxscore: "boxscore_path gid \<noteq> scoreboard_path d"
  by (simp add: scoreboard_path_def boxscore_path_def)

lemma month_loop_requests:
  "month_loop w season months dates st = (r, st1) \<Longrightarrow>
     \<exists>new. requested st1 = requested st @ new \<and> BASE @ boxscore_path gid \<notin> set new"
proof (induction months arbitrary: dates st)
  case Nil
  then show ?case by simp
next
  case (Cons month months)
  obtain data st0 where g: "get w (schedule_path season month) st = (data, st0)"
    by (cases "get w (schedule_path season month) st")
  from get_requested [of w "schedule_path season month" st] g
  have r0: "requested st0 = requested st @ [BASE @ schedule_path season month]" by simp
  from Cons.prems g consider
    (stop) "st1 = st0"
    | (go) dates1 where "month_loop w season months dates1 st0 = (r, st1)"
    by (auto split: if_splits sum.splits)
  then show ?case
  proof cases
    case stop
    with r0 show ?thesis by (simp add: schedule_not_boxscore)
  next
    case go
    from Cons.IH [OF go] obtain new where
      "requested st1 = requested st0 @ new" "BASE @ boxscore_path gid \<notin> set new" by blast
    with r0 show ?thesis by (simp add: schedule_not_boxscore)
  qed
qed

lemma get_game_ids_requests:
  "get_game_ids_for_date w d st = (r, st1) \<Longrightarrow>
     requested st1 = requested st @ [BASE @ scoreboard_path d]"
  using get_requested [of w "scoreboard_path d" st]
  by (auto simp: get_game_ids_for_date_def split: prod.splits if_splits)

lemma scoreboard_loop_requests:
  "scoreboard_loop w dates game_metas st = (r, st1) \<Longrightarrow>
     \<exists>new. requested st1 = requested st @ new \<and> BASE @ boxscore_path gid \<notin> set new"
proof (induction dates arbitrary: game_metas st)
  case Nil
  then show ?case by simp
next
  case (Cons d dates)
  obtain r0 st0 where g: "get_game_ids_for_date w d st = (r0, st0)"
    by (cases "get_game_ids_for_date w d st")
  from get_game_ids_requests [OF g]
  have r0: "requested st0 = requested st @ [BASE @ scoreboard_path d]" .
  from Cons.prems g consider
    (stop) "st1 = st0"
    | (go) metas1 where "scoreboard_loop w dates metas1 st0 = (r, st1)"
    by (auto split: sum.splits)
  then show ?case
  proof cases
    case stop
    with r0 show ?thesis by (simp add: scoreboard_not_boxscore)
  next
    case go
    from Cons.IH [OF go] obtain new where
      "requested st1 = requested st0 @ new" "BASE @ boxscore_path gid \<notin> set new" by blast
    with r0 show ?thesis by (simp add: scoreboard_not_boxscore)
  qed
qed

lemma parse_boxscore_requests:
  "parse_boxscore w gid meta st = (r, st1) \<Longrightarrow>
     requested st1 = requested st @ [BASE @ boxscore_path gid]"
  using get_requested [of w "boxscore_path gid" st]
  by (auto simp: parse_boxscore_def split: prod.splits if_splits)

lemma boxscore_loop_requests:
  "boxscore_loop w games season_rows failed st = (Inr out, st1) \<Longrightarrow>
     requested st1 = requested st @ map (\<lambda>g. BASE @ boxscore_path (fst g)) games"
proof (induction games arbitrary: season_rows failed st)
  case Nil
  then show ?case by simp
next
  case (Cons g games)
  obtain gid meta where gm: "g = (gid, meta)" by (cases g)
  obtain r0 st0 where p: "parse_boxscore w gid meta st = (r0, st0)"
    by (cases "parse_boxscore w gid meta st")
  from parse_boxscore_requests [OF p]
  have r0: "requested st0 = requested st @ [BASE @ boxscore_path gid]" .
  from Cons.prems gm p obtain rows1 failed1 where
    "boxscore_loop w games rows1 failed1 st0 = (Inr out, st1)"
    by (auto split: sum.splits if_splits)
  from Cons.IH [OF this] r0 show ?case by (simp add: gm)
qed

lemma boxscore_loop_prefix:
  "boxscore_loop w games season_rows failed st = (r, st1) \<Longrightarrow>
     \<exists>k. requested st1 = requested st @ map (\<lambda>g. BASE @ boxscore_path (fst g)) (take k games)"
proof (induction games arbitrary: season_rows failed st)
  case Nil
  then show ?case by simp
next
  case (Cons g games)
  obtain gid meta where gm: "g = (gid, meta)" by (cases g)
  obtain r0 st0 where p: "parse_boxscore w gid meta st = (r0, st0)"
    by (cases "parse_boxscore w gid meta st")
  from parse_boxscore_requests [OF p]
  have r0: "requested st0 = requested st @ [BASE @ boxscore_path gid]" .
  from Cons.prems gm p consider
    (stop) "st1 = st0"
    | (go) rows1 failed1 where "boxscore_loop w games rows1 failed1 st0 = (r, st1)"
    by (auto split: sum.splits if_splits)
  then show ?case
  proof cases
    case stop
    with r0 have "requested st1 = requested st @ map (\<lambda>g. BASE @ boxscore_path (fst g)) (take 1 (g # games))"
      by (simp add: gm)
    then show ?thesis by blast
  next
    case go
    from Cons.IH [OF go] obtain k where
      "requested st1 = requested st0 @ map (\<lambda>g. BASE @ boxscore_path (fst g)) (take k games)" by blast
    with r0 have "requested st1 = requested st @ map (\<lambda>g. BASE @ boxscore_path (fst g)) (take (Suc k) (g # games))"
      by (simp add: gm)
    then show ?thesis by blast
  qed
qed

lemma dedupe_keys:
  "distinct (map fst unique) \<Longrightarrow> fst ` set unique \<subseteq> seen \<Longrightarrow>
     distinct (map fst (dedupe xs seen unique)) \<and>
     fst ` set (dedupe xs seen unique) = fst ` set unique \<union> (fst ` set xs - seen)"
proof (induction xs arbitrary: seen unique)
  case Nil
  then show ?case by simp
next
  case (Cons x xs)
  obtain gid meta where x: "x = (gid, meta)" by (cases x)
  show ?case
  proof (cases "gid \<in> seen")
    case True
    with Cons show ?thesis by (auto simp: x)
  next
    case False
    with Cons.prems have d: "distinct (map fst (unique @ [(gid, meta)]))" by auto
    from Cons.prems have s: "fst ` set (unique @ [(gid, meta)]) \<subseteq> insert gid seen" by auto
    from Cons.IH [OF d s] False show ?thesis by (auto simp: x)
  qed
qed

lemma count_list_distinct: "distinct xs \<Longrightarrow> x \<in> set xs \<Longrightarrow> count_list xs x = 1"
  by (induction xs) auto

lemma count_list_distinct_le: "distinct xs \<Longrightarrow> count_list xs x \<le> 1"
  by (induction xs) auto

lemma count_boxscore_urls:
  "count_list (map (\<lambda>g. BASE @ boxscore_path (fst g)) games) (BASE @ boxscore_path gid)
     = count_list (map fst games) gid"
  by (induction games) (auto simp: boxscore_path_def)

lemma main_rows_season: "main_rows w st = season_body w ''2024'' [] st"
  by (simp add: main_rows_def SEASONS_def split: prod.splits sum.splits)

lemma no_game_fetched_twice:
  assumes "main_rows w st = (r, st3)"
  shows "boxscore_requests gid st st3 \<le> 1"
proof -
  let ?u = "BASE @ boxscore_path gid"
  from assms have sb: "season_body w ''2024'' [] st = (r, st3)" by (simp add: main_rows_season)
  obtain r1 st1 where d: "month_loop w ''2024'' SEASON_MONTHS [] st = (r1, st1)"
    by (cases "month_loop w ''2024'' SEASON_MONTHS [] st")
  from month_loop_requests [OF d] obtain new1 where
    n1: "requested st1 = requested st @ new1" "?u \<notin> set new1" by blast
  show ?thesis
  proof (cases r1)
    case (Inl e)
    with sb d have "st3 = st1" by (simp add: season_body_def get_game_dates_def)
    with n1 show ?thesis by (simp add: boxscore_requests_def)
  next
    case (Inr dates)
    obtain r2 st2 where m: "scoreboard_loop w dates [] st1 = (r2, st2)"
      by (cases "scoreboard_loop w dates [] st1")
    from scoreboard_loop_requests [OF m] obtain new2 where
      n2: "requested st2 = requested st1 @ new2" "?u \<notin> set new2" by blast
    show ?thesis
    proof (cases r2)
      case (Inl e)
      with sb d m Inr have "st3 = st2" by (simp add: season_body_def get_game_dates_def)
      with n1 n2 show ?thesis by (simp add: boxscore_requests_def)
    next
      case metas: (Inr game_metas)
      obtain r3 st4 where b: "boxscore_loop w (dedupe game_metas {} []) [] 0 st2 = (r3, st4)"
        by (cases "boxscore_loop w (dedupe game_metas {} []) [] 0 st2")
      with sb d m Inr metas have "st3 = st4"
        by (auto simp: season_body_def get_game_dates_def split: sum.splits)
      moreover from boxscore_loop_prefix [OF b] obtain k where
        "requested st4 = requested st2 @
           map (\<lambda>g. BASE @ boxscore_path (fst g)) (take k (dedupe game_metas {} []))" by blast
      ultimately have "boxscore_requests gid st st3
          = count_list (map fst (take k (dedupe game_metas {} []))) gid"
        using n1 n2 by (simp add: boxscore_requests_def count_boxscore_urls)
      moreover have "distinct (map fst (take k (dedupe game_metas {} [])))"
        using dedupe_keys [of "[]" "{}" game_metas] by (simp add: take_map [symmetric])
      ultimately show ?thesis
        using count_list_distinct_le [of "map fst (take k (dedupe game_metas {} []))" gid] by simp
    qed
  qed
qed

text \<open>
  In a run that returns, a game identifier found in the collected scoreboard results,
  however many dates list it, has its boxscore fetched (\<open>parse_boxscore\<close> called on it)
  exactly once.
\<close>

theorem each_game_fetched_once:
  assumes dates: "get_game_dates w ''2024'' st = (Inr dates, st1)"
    and metas: "scoreboard_loop w dates [] st1 = (Inr game_metas, st2)"
    and gid: "gid \<in> fst ` set game_metas"
    and run: "main_rows w st = (Inr out, st3)"
  shows "boxscore_requests gid st st3 = 1"
proof -
  let ?u = "BASE @ boxscore_path gid"
  let ?unique = "dedupe game_metas {} []"
  from run have sb: "season_body w ''2024'' [] st = (Inr out, st3)" by (simp add: main_rows_season)
  with dates metas obtain season_rows failed where
    b: "boxscore_loop w ?unique [] 0 st2 = (Inr (season_rows, failed), st3)"
    by (auto simp: season_body_def split: prod.splits sum.splits)
  from dates have "month_loop w ''2024'' SEASON_MONTHS [] st = (Inr dates, st1)"
    by (simp add: get_game_dates_def)
  from month_loop_requests [OF this] obtain new1 where
    n1: "requested st1 = requested st @ new1" "?u \<notin> set new1" by blast
  from scoreboard_loop_requests [OF metas] obtain new2 where
    n2: "requested st2 = requested st1 @ new2" "?u \<notin> set new2" by blast
  from boxscore_loop_requests [OF b]
  have n3: "requested st3 = requested st2 @ map (\<lambda>g. BASE @ boxscore_path (fst g)) ?unique" .
  from n1 n2 n3 have "boxscore_requests gid st st3 = count_list (map fst ?unique) gid"
    by (simp add: boxscore_requests_def count_boxscore_urls)
  moreover from dedupe_keys [of "[]" "{}" game_metas]
  have "distinct (map fst ?unique)" "fst ` set ?unique = fst ` set game_metas" by simp_all
  ultimately show ?thesis using gid by (simp add: count_list_distinct)
qed

theorem each_game_fetched_once_witness:
  "fst (get_game_dates example_world ''2024'' \<lparr>requested = [], sleeps = 0\<rparr>)
     = Inr [''2024/09/01'', ''2024/09/02''] \<and>
   map fst (projr (fst (scoreboard_loop example_world [''2024/09/01'', ''2024/09/02''] []
      (snd (get_game_dates example_world ''2024'' \<lparr>requested = [], sleeps = 0\<rparr>)))))
     = [''6348656'', ''6348656''] \<and>
   fst (main_rows example_world \<lparr>requested = [], sleeps = 0\<rparr>) = Inr [] \<and>
   boxscore_requests ''6348656'' \<lparr>requested = [], sleeps = 0\<rparr>
     (snd (main_rows example_world \<lparr>requested = [], sleeps = 0\<rparr>)) = 1"
proof -
  let ?st = "\<lparr>requested = [], sleeps = 0\<rparr>"
  let ?st1 = "snd (get_game_dates example_world ''2024'' ?st)"
  let ?sl = "scoreboard_loop example_world [''2024/09/01'', ''2024/09/02''] [] ?st1"
  have a: "fst (get_game_dates example_world ''2024'' ?st) = Inr [''2024/09/01'', ''2024/09/02'']"
    by code_simp
  have b1: "\<not> isl (fst ?sl)" by code_simp
  have b2: "map fst (projr (fst ?sl)) = [''6348656'', ''6348656'']" by code_simp
  have c: "fst (main_rows example_world ?st) = Inr []" by code_simp
  from b1 obtain game_metas where gm: "fst ?sl = Inr game_metas" by (cases "fst ?sl") auto
  with b2 have ids: "map fst game_metas = [''6348656'', ''6348656'']" by simp
  have dates: "get_game_dates example_world ''2024'' ?st = (Inr [''2024/09/01'', ''2024/09/02''], ?st1)"
    using a by (simp add: prod_eq_iff)
  have metas: "?sl = (Inr game_metas, snd ?sl)" using gm by (simp add: prod_eq_iff)
  have run: "main_rows example_world ?st = (Inr [], snd (main_rows example_world ?st))"
    using c by (simp add: prod_eq_iff)
  have "''6348656'' \<in> set (map fst game_metas)" unfolding ids by simp
  then have gid: "''6348656'' \<in> fst ` set game_metas" by simp
  from each_game_fetched_once [OF dates metas gid run] a b2 c show ?thesis by simp
qed

text \<open>
  C2. Not every run fetches the boxscore of a game listed on two dates exactly once. No
  run fetches it twice, and a run that returns fetches it once (the two facts above); but
  \<open>main\<close> catches nothing, so a run in which \<open>parse_boxscore\<close> raises on one game never
  reaches the games after it. Here the first game's boxscore has a team block without
  \<open>teamId\<close>, and the second game, listed on both dates, is never fetched.
\<close>

theorem failed_boxscore_skips_later_games:
  "fst (get_game_dates failing_world ''2024'' \<lparr>requested = [], sleeps = 0\<rparr>)
     = Inr [''2024/09/01'', ''2024/09/02''] \<and>
   map fst (projr (fst (scoreboard_loop failing_world [''2024/09/01'', ''2024/09/02''] []
      (snd (get_game_dates failing_world ''2024'' \<lparr>requested = [], sleeps = 0\<rparr>)))))
     = [''6348656'', ''6348657'', ''6348657''] \<and>
   fst (main_rows failing_world \<lparr>requested = [], sleeps = 0\<rparr>) = Inl ValueError \<and>
   boxscore_requests ''6348656'' \<lparr>requested = [], sleeps = 0\<rparr>
     (snd (main_rows failing_world \<lparr>requested = [], sleeps = 0\<rparr>)) = 1 \<and>
   boxscore_requests ''6348657'' \<lparr>requested = [], sleeps = 0\<rparr>
     (snd (main_rows failing_world \<lparr>requested = [], sleeps = 0\<rparr>)) = 0"
  by code_simp

section \<open>Properties of the season aggregator\<close>

lemma mapE_Inr:
  "mapE f xs = Inr ys \<Longrightarrow> y \<in> set ys \<Longrightarrow> \<exists>x \<in> set xs. f x = Inr y"
proof (induction xs arbitrary: ys)
  case Nil
  then show ?case by simp
next
  case (Cons x xs)
  from Cons.prems(1) obtain z zs where "f x = Inr z" "mapE f xs = Inr zs" "ys = z # zs"
    by (auto simp: bindE_def split: sum.splits)
  with Cons.IH Cons.prems(2) show ?case by auto
qed

lemma mapE_total:
  "(\<And>x. x \<in> set xs \<Longrightarrow> \<exists>y. f x = Inr y) \<Longrightarrow> \<exists>ys. mapE f xs = Inr ys"
proof (induction xs)
  case Nil
  then show ?case by simp
next
  case (Cons x xs)
  then obtain y ys where "f x = Inr y" "mapE f xs = Inr ys" by (meson list.set_intros)
  then show ?case by (simp add: bindE_def)
qed

lemma mapE_map:
  "mapE f xs = Inr ys \<Longrightarrow> (\<And>x y. f x = Inr y \<Longrightarrow> g y = h x) \<Longrightarrow> map g ys = map h xs"
proof (induction xs arbitrary: ys)
  case Nil
  then show ?case by simp
next
  case (Cons x xs)
  from Cons.prems(1) obtain z zs where "f x = Inr z" "mapE f xs = Inr zs" "ys = z # zs"
    by (auto simp: bindE_def split: sum.splits)
  with Cons.IH Cons.prems(2) show ?case by auto
qed

lemma find_eq: "find (\<lambda>c. c = x) xs = (if x \<in> set xs then Some x else None)"
  by (induction xs) auto

lemma label_index_Inr: "label_index cols c = Inr i \<Longrightarrow> i = first_index cols c"
  by (auto simp: label_index_def split: if_splits)

lemma count_list_positive: "count_list xs x = Suc n \<Longrightarrow> x \<in> set xs"
  by (induction xs) (auto split: if_splits)

lemma label_index_total:
  "count_list cols c = Suc 0 \<Longrightarrow> label_index cols c = Inr (first_index cols c)"
  by (auto simp: label_index_def dest: count_list_positive)

lemma key_indices:
  "mapE (label_index cols) cs = Inr is \<Longrightarrow> is = map (first_index cols) cs"
  using mapE_map [of "label_index cols" cs "is" "\<lambda>i. i" "first_index cols"]
  by (simp add: label_index_Inr)

lemma key_of_identity:
  "key_of (map (first_index (map lower (columns df))) group_cols) r = identity df r"
  by (simp add: key_of_def identity_def comp_def)

lemma members_group_rows:
  "members (map (first_index (map lower (columns df))) group_cols) (rows df) k = group_rows df k"
  by (simp add: members_def group_rows_def key_of_identity)

lemma group_keys_identity:
  "set (group_keys (map (first_index (map lower (columns df))) group_cols) (rows df))
     = identity df ` {r \<in> set (rows df). \<not> list_ex missing (identity df r)}"
  by (auto simp: group_keys_def key_of_identity)

lemma group_rows_nonempty:
  "k \<in> identity df ` {r \<in> set (rows df). \<not> list_ex missing (identity df r)}
     \<Longrightarrow> group_rows df k \<noteq> []"
  by (auto simp: group_rows_def filter_empty_conv)

lemma summarize_fields:
  assumes "summarize lib cols stat_cols id_idx won_idx k ms = Inr r"
  shows "key r = k"
    and "games_played r = count_present (map (\<lambda>row. cell_at row id_idx) ms)"
    and "win_rate r = num_div lib (team_wins_in r) (replace_zero (games_played r))"
    and "start_rate r =
           map_option (\<lambda>n. num_div lib (Fin (of_nat n)) (replace_zero (games_played r)))
             (est_starts r)"
    and "stat_sums r =
           map (\<lambda>c. (c, group_sum lib
                  (map (\<lambda>row. to_numeric lib (cell_at row (first_index cols c))) ms))) stat_cols"
    and "production_per_game r =
           (if ''stat_goals'' \<in> set stat_cols \<and> ''stat_assists'' \<in> set stat_cols
            then Some (num_div lib
                         (num_add lib (fillna0 (sum_of (stat_sums r) ''stat_goals''))
                            (half lib (fillna0 (sum_of (stat_sums r) ''stat_assists''))))
                         (replace_zero (games_played r)))
            else None)"
  using assms
  by (auto simp: summarize_def bindE_def Let_def find_eq split: sum.splits)

lemma summarize_total:
  assumes "list_all (\<lambda>r. case cell_at r won_idx of Txt s \<Rightarrow> False | Obj j \<Rightarrow> False | _ \<Rightarrow> True) ms"
  shows "\<exists>r. summarize lib cols stat_cols id_idx won_idx k ms = Inr r"
proof -
  have "\<exists>y. won_value (cell_at x won_idx) = Inr y" if "x \<in> set ms" for x
    using assms that by (cases "cell_at x won_idx") (auto simp: list_all_iff)
  from mapE_total [of ms "\<lambda>r. won_value (cell_at r won_idx)", OF this]
  obtain wins where "mapE (\<lambda>r. won_value (cell_at r won_idx)) ms = Inr wins" by blast
  then show ?thesis by (simp add: summarize_def bindE_def Let_def)
qed

lemma aggregate_parts:
  assumes "aggregate_player_season lib df = Inr out"
    and "\<not> (columns df = [] \<or> rows df = [])"
  shows "table_columns out
           = result_columns (filter (\<lambda>c. startswith c ''stat_'') (map lower (columns df)))"
    and "mapE (\<lambda>k. summarize lib (map lower (columns df))
                     (filter (\<lambda>c. startswith c ''stat_'') (map lower (columns df)))
                     (first_index (map lower (columns df)) ''game_id'')
                     (first_index (map lower (columns df)) ''team_won'')
                     k (group_rows df k))
           (group_keys (map (first_index (map lower (columns df))) group_cols) (rows df))
         = Inr (table_rows out)"
proof -
  let ?cols = "map lower (columns df)"
  let ?stat = "filter (\<lambda>c. startswith c ''stat_'') ?cols"
  from assms obtain key_idx id_idx won_idx rs where
    k: "mapE (label_index ?cols) group_cols = Inr key_idx"
    and i: "label_index ?cols ''game_id'' = Inr id_idx"
    and w: "label_index ?cols ''team_won'' = Inr won_idx"
    and m: "mapE (\<lambda>k. summarize lib ?cols ?stat id_idx won_idx k (members key_idx (rows df) k))
              (group_keys key_idx (rows df)) = Inr rs"
    and out: "out = \<lparr>table_columns = result_columns ?stat, table_rows = rs\<rparr>"
    by (auto simp: aggregate_player_season_def bindE_def Let_def split: sum.splits if_splits)
  from out show "table_columns out = result_columns ?stat" by simp
  from m out show "mapE (\<lambda>k. summarize lib ?cols ?stat (first_index ?cols ''game_id'')
                     (first_index ?cols ''team_won'') k (group_rows df k))
           (group_keys (map (first_index ?cols) group_cols) (rows df)) = Inr (table_rows out)"
    unfolding key_indices [OF k] label_index_Inr [OF i] label_index_Inr [OF w]
    by (simp add: members_group_rows)
qed

lemma aggregate_empty:
  assumes "aggregate_player_season lib df = Inr out" and "columns df = [] \<or> rows df = []"
  shows "table_columns out = []" and "table_rows out = []"
  using assms by (auto simp: aggregate_player_season_def)

lemma aggregate_row:
  assumes "aggregate_player_season lib df = Inr out" and "r \<in> set (table_rows out)"
  shows "summarize lib (map lower (columns df))
           (filter (\<lambda>c. startswith c ''stat_'') (map lower (columns df)))
           (first_index (map lower (columns df)) ''game_id'')
           (first_index (map lower (columns df)) ''team_won'')
           (key r) (group_rows df (key r)) = Inr r"
    and "group_rows df (key r) \<noteq> []"
proof -
  from assms have ne: "\<not> (columns df = [] \<or> rows df = [])"
    using aggregate_empty(2) [OF assms(1)] by auto
  from mapE_Inr [OF aggregate_parts(2) [OF assms(1) ne] assms(2)] obtain k where
    k: "k \<in> set (group_keys (map (first_index (map lower (columns df))) group_cols) (rows df))"
    and s: "summarize lib (map lower (columns df))
           (filter (\<lambda>c. startswith c ''stat_'') (map lower (columns df)))
           (first_index (map lower (columns df)) ''game_id'')
           (first_index (map lower (columns df)) ''team_won'')
           k (group_rows df k) = Inr r"
    by blast
  from summarize_fields(1) [OF s] have kr: "key r = k" .
  from s kr show "summarize lib (map lower (columns df))
           (filter (\<lambda>c. startswith c ''stat_'') (map lower (columns df)))
           (first_index (map lower (columns df)) ''game_id'')
           (first_index (map lower (columns df)) ''team_won'')
           (key r) (group_rows df (key r)) = Inr r" by simp
  from k kr show "group_rows df (key r) \<noteq> []"
    by (simp add: group_keys_identity group_rows_nonempty)
qed





lemma count_present_all:
  "list_all (\<lambda>c. \<not> missing c) cs \<Longrightarrow> count_present cs = length cs"
  by (simp add: count_present_def list_all_iff)

lemma aggregate_total:
  assumes "usable df"
  shows "\<exists>out. aggregate_player_season lib df = Inr out"
proof (cases "columns df = [] \<or> rows df = []")
  case True
  then show ?thesis by (auto simp: aggregate_player_season_def)
next
  case False
  let ?cols = "map lower (columns df)"
  let ?stat = "filter (\<lambda>c. startswith c ''stat_'') ?cols"
  let ?won = "first_index ?cols ''team_won''"
  let ?idx = "map (first_index ?cols) group_cols"
  from assms have once: "\<And>c. c \<in> set (group_cols @ [''game_id'', ''team_won'']) \<Longrightarrow> count_list ?cols c = 1"
    and d: "distinct ?stat"
    and won: "list_all (\<lambda>r. case cell_at r ?won of Txt s \<Rightarrow> False | Obj j \<Rightarrow> False | _ \<Rightarrow> True) (rows df)"
    and hash: "list_all (\<lambda>r. list_all (\<lambda>c. \<not> unhashable (cell_at r (first_index ?cols c))) group_cols)
        (rows df)"
    by (auto simp: usable_def Let_def list_all_iff)
  have "\<exists>i. label_index ?cols c = Inr i" if "c \<in> set group_cols" for c
    using once [of c] that by (auto dest: label_index_total)
  from mapE_total [of group_cols "label_index ?cols", OF this]
  obtain key_idx where k0: "mapE (label_index ?cols) group_cols = Inr key_idx" by blast
  from key_indices [OF k0] k0 have k: "mapE (label_index ?cols) group_cols = Inr ?idx" by simp
  have i: "label_index ?cols ''game_id'' = Inr (first_index ?cols ''game_id'')"
    using once [of "''game_id''"] by (auto dest: label_index_total)
  have w: "label_index ?cols ''team_won'' = Inr ?won"
    using once [of "''team_won''"] by (auto dest: label_index_total)
  have h: "\<not> list_ex (\<lambda>r. list_ex (\<lambda>i. unhashable (cell_at r i)) ?idx) (rows df)"
    using hash by (auto simp: list_all_iff list_ex_iff)
  have "\<exists>r. summarize lib ?cols ?stat (first_index ?cols ''game_id'') ?won g
            (members ?idx (rows df) g) = Inr r" for g
  proof (rule summarize_total)
    show "list_all (\<lambda>r. case cell_at r ?won of Txt s \<Rightarrow> False | Obj j \<Rightarrow> False | _ \<Rightarrow> True)
            (members ?idx (rows df) g)"
      using won by (auto simp: list_all_iff members_def)
  qed
  from mapE_total [of "group_keys ?idx (rows df)"
      "\<lambda>g. summarize lib ?cols ?stat (first_index ?cols ''game_id'') ?won g (members ?idx (rows df) g)",
      OF this]
  obtain rs where "mapE (\<lambda>g. summarize lib ?cols ?stat (first_index ?cols ''game_id'') ?won g
      (members ?idx (rows df) g)) (group_keys ?idx (rows df)) = Inr rs" by blast
  with False d k i w h show ?thesis
    by (simp add: aggregate_player_season_def bindE_def Let_def)
qed

text \<open>
  C7. On a usable table the aggregator returns a result, whatever the counts are; and in
  every row of a result whose \<open>games_played\<close> is 0, \<open>win_rate\<close> is the missing value, and
  \<open>start_rate\<close>, where the column exists, is the missing value too: never an infinity.
\<close>

theorem rates_missing_without_games:
  "(usable df \<longrightarrow> (\<exists>out. aggregate_player_season lib df = Inr out)) \<and>
   (\<forall>out r. aggregate_player_season lib df = Inr out \<and> r \<in> set (table_rows out) \<and>
        games_played r = 0 \<longrightarrow>
        win_rate r = NaN \<and> (start_rate r = None \<or> start_rate r = Some NaN))"
proof (intro conjI allI impI)
  assume "usable df"
  then show "\<exists>out. aggregate_player_season lib df = Inr out" by (rule aggregate_total)
next
  fix out r
  assume a: "aggregate_player_season lib df = Inr out \<and> r \<in> set (table_rows out) \<and> games_played r = 0"
  then have s: "summarize lib (map lower (columns df))
           (filter (\<lambda>c. startswith c ''stat_'') (map lower (columns df)))
           (first_index (map lower (columns df)) ''game_id'')
           (first_index (map lower (columns df)) ''team_won'')
           (key r) (group_rows df (key r)) = Inr r"
    using aggregate_row(1) [of lib df out r] by blast
  from a have z: "replace_zero (games_played r) = NaN" by (simp add: replace_zero_def)
  have 1: "win_rate r = NaN"
    unfolding summarize_fields(3) [OF s] z by (cases "team_wins_in r") simp_all
  have 2: "start_rate r = None \<or> start_rate r = Some NaN"
    unfolding summarize_fields(4) [OF s] z by (cases "est_starts r") simp_all
  from 1 2 show "win_rate r = NaN" "start_rate r = None \<or> start_rate r = Some NaN" by simp_all
qed

theorem rates_missing_without_games_witness:
  "usable example_frame_no_id \<and>
   \<not> isl (aggregate_player_season exact example_frame_no_id) \<and>
   map games_played (table_rows (projr (aggregate_player_season exact example_frame_no_id))) = [0] \<and>
   map win_rate (table_rows (projr (aggregate_player_season exact example_frame_no_id))) = [NaN] \<and>
   map start_rate (table_rows (projr (aggregate_player_season exact example_frame_no_id))) = [Some NaN]"
proof -
  let ?a = "aggregate_player_season exact example_frame_no_id"
  have u: "usable example_frame_no_id" by code_simp
  with rates_missing_without_games [of example_frame_no_id exact]
  obtain out where out: "?a = Inr out" by blast
  have g: "map games_played (table_rows (projr ?a)) = [0]" by code_simp
  have s: "map start_rate (table_rows (projr ?a)) = [Some NaN]" by code_simp
  from g out obtain r where r: "table_rows out = [r]" "games_played r = 0" by auto
  then have "r \<in> set (table_rows out)" by simp
  with rates_missing_without_games [of example_frame_no_id exact] out r(2)
  have "win_rate r = NaN" by blast
  with r out have "map win_rate (table_rows (projr ?a)) = [NaN]" by simp
  with u g s out show ?thesis by simp
qed



section \<open>Properties of the season table of a run\<close>

lemma known_stats_keys_in:
  assumes "\<And>x. ''stat_'' @ x \<in> S"
  shows "fst ` set (known_stats fs player row) \<subseteq> fst ` set row \<union> S"
proof (induction fs arbitrary: row)
  case Nil
  then show ?case by simp
next
  case (Cons f fs)
  let ?row1 = "case map_of player f of
          Some v \<Rightarrow> row_set row (''stat_'' @ lower f) v | None \<Rightarrow> row"
  have "fst ` set ?row1 \<subseteq> fst ` set row \<union> S"
    using assms by (auto simp: keys_row_set split: option.splits)
  with Cons.IH [of ?row1] show ?case by auto
qed

lemma unknown_stats_keys_in:
  assumes "\<And>x. ''stat_'' @ x \<in> S"
  shows "fst ` set (unknown_stats items row) \<subseteq> fst ` set row \<union> S"
proof (induction items arbitrary: row)
  case Nil
  then show ?case by simp
next
  case (Cons kv items)
  obtain k v where kv: "kv = (k, v)" by (cases kv)
  let ?row1 = "row_set row (''stat_'' @ lower k) v"
  have 1: "fst ` set ?row1 \<subseteq> fst ` set row \<union> S"
    using assms by (auto simp: keys_row_set)
  show ?case
  proof (cases "startswith k ''__'' \<or> k \<in> set identity_fields
                  \<or> ''stat_'' @ lower k \<in> fst ` set row")
    case True
    then have "unknown_stats (kv # items) row = unknown_stats items row" by (auto simp: kv)
    with Cons.IH [of row] show ?thesis by simp
  next
    case False
    then have "unknown_stats (kv # items) row = unknown_stats items ?row1" by (simp add: kv)
    with Cons.IH [of ?row1] 1 show ?thesis by auto
  qed
qed

lemma lower_stat_label: "lower (''stat_'' @ x) \<noteq> ''game_id''"
proof -
  have "lower_char CHR ''s'' = CHR ''s''" by code_simp
  then show ?thesis by (simp add: lower_def)
qed

lemma lower_game_id: "lower ''game_id'' = ''game_id''"
  by code_simp

lemma fixed_labels:
  "list_all (\<lambda>k. lower k \<noteq> ''game_id'' \<or> k = ''game_id'')
     [''game_id'', ''game_date'', ''season'', ''player_first'', ''player_last'', ''player_num'',
      ''position'', ''stat_type'', ''category'', ''team_name'', ''team_seo'', ''is_home'',
      ''team_won'', ''team_record_at_game'']"
  by code_simp

lemma player_row_carries_id:
  assumes "player_row game_id meta team_name team_seo is_home won rcd player = Inr row"
  shows "carries_id row"
proof -
  from assms obtain items game_date season where
    row: "row = unknown_stats items (known_stats SOCCER_STAT_FIELDS items
         [(''game_id'', JStr game_id),
          (''game_date'', game_date),
          (''season'', season),
          (''player_first'', case map_of items ''firstName'' of Some v \<Rightarrow> v | None \<Rightarrow> JStr []),
          (''player_last'', case map_of items ''lastName'' of Some v \<Rightarrow> v | None \<Rightarrow> JStr []),
          (''player_num'', case map_of items ''number'' of Some v \<Rightarrow> v | None \<Rightarrow> JStr []),
          (''position'', case map_of items ''position'' of Some v \<Rightarrow> v | None \<Rightarrow> JStr []),
          (''stat_type'', case map_of items ''__typename'' of Some v \<Rightarrow> v | None \<Rightarrow> JStr []),
          (''category'', case map_of items ''category'' of Some v \<Rightarrow> v | None \<Rightarrow> JStr []),
          (''team_name'', team_name),
          (''team_seo'', team_seo),
          (''is_home'', JBool is_home),
          (''team_won'', won),
          (''team_record_at_game'', rcd)])" (is "row = unknown_stats items (known_stats _ _ ?row0)")
    by (auto simp: player_row_def bindE_def Let_def split: sum.splits)
  have "''game_id'' \<in> fst ` set (known_stats SOCCER_STAT_FIELDS items ?row0)"
    using known_stats_keys [of ?row0 SOCCER_STAT_FIELDS items] by auto
  then have "map_of row ''game_id'' = map_of ?row0 ''game_id''"
    unfolding row by (simp only: unknown_stats_keeps) (simp add: known_stats_other)
  then have id: "map_of row ''game_id'' = Some (JStr game_id)" by simp
  have keys: "fst ` set row \<subseteq> fst ` set ?row0 \<union> {k. \<exists>x. k = ''stat_'' @ x}"
    unfolding row
    using unknown_stats_keys_in [of "{k. \<exists>x. k = ''stat_'' @ x}" items
        "known_stats SOCCER_STAT_FIELDS items ?row0"]
      known_stats_keys_in [of "{k. \<exists>x. k = ''stat_'' @ x}" SOCCER_STAT_FIELDS items ?row0]
    by blast
  have "k = ''game_id''" if "k \<in> fst ` set row" "lower k = ''game_id''" for k
  proof -
    from keys that(1) consider "k \<in> fst ` set ?row0" | x where "k = ''stat_'' @ x" by blast
    then show ?thesis
    proof cases
      case 1
      then have "k \<in> set [''game_id'', ''game_date'', ''season'', ''player_first'', ''player_last'',
        ''player_num'', ''position'', ''stat_type'', ''category'', ''team_name'', ''team_seo'',
        ''is_home'', ''team_won'', ''team_record_at_game'']" by simp
      with fixed_labels that(2) show ?thesis unfolding list_all_iff by blast
    next
      case 2
      with that(2) lower_stat_label show ?thesis by blast
    qed
  qed
  with id show ?thesis unfolding carries_id_def by blast
qed

lemma player_rows_carry_id:
  "player_rows game_id meta team_name team_seo is_home won rcd players acc = Inr out
   \<Longrightarrow> list_all carries_id acc \<Longrightarrow> list_all carries_id out"
proof (induction players arbitrary: acc)
  case Nil
  then show ?case by simp
next
  case (Cons p players)
  from Cons.prems(1) obtain row where
    r: "player_row game_id meta team_name team_seo is_home won rcd p = Inr row"
    and rest: "player_rows game_id meta team_name team_seo is_home won rcd players (acc @ [row]) = Inr out"
    by (auto simp: bindE_def split: sum.splits)
  have "list_all carries_id (acc @ [row])"
    using Cons.prems(2) player_row_carries_id [OF r] by simp
  from Cons.IH [OF rest this] show ?case .
qed

lemma team_block_carries_id:
  "team_block game_id meta teams_info team_box acc = Inr out \<Longrightarrow>
   list_all carries_id acc \<Longrightarrow> list_all carries_id out"
  by (auto simp: team_block_def bindE_def split: sum.splits if_splits
        intro: player_rows_carry_id)

lemma team_blocks_carry_id:
  "team_blocks game_id meta teams_info boxes acc = Inr out \<Longrightarrow>
   list_all carries_id acc \<Longrightarrow> list_all carries_id out"
proof (induction boxes arbitrary: acc)
  case Nil
  then show ?case by simp
next
  case (Cons b boxes)
  from Cons.prems(1) obtain acc1 where
    a: "team_block game_id meta teams_info b acc = Inr acc1"
    and rest: "team_blocks game_id meta teams_info boxes acc1 = Inr out"
    by (auto simp: bindE_def split: sum.splits)
  from Cons.IH [OF rest team_block_carries_id [OF a Cons.prems(2)]] show ?case .
qed

lemma parse_boxscore_carries_id:
  "parse_boxscore w game_id meta st = (Inr out, st1) \<Longrightarrow> list_all carries_id out"
  by (auto simp: parse_boxscore_def boxscore_rows_def bindE_def
        split: prod.splits if_splits sum.splits dest: team_blocks_carry_id)

lemma boxscore_loop_carries_id:
  "boxscore_loop w games acc failed st = (Inr (out, n), st1) \<Longrightarrow>
   list_all carries_id acc \<Longrightarrow> list_all carries_id out"
proof (induction games arbitrary: acc failed st)
  case Nil
  then show ?case by simp
next
  case (Cons g games)
  obtain gid meta where gm: "g = (gid, meta)" by (cases g)
  obtain r0 st0 where p: "parse_boxscore w gid meta st = (r0, st0)"
    by (cases "parse_boxscore w gid meta st")
  from Cons.prems(1) gm p obtain found where f: "r0 = Inr found" by (cases r0) auto
  from parse_boxscore_carries_id p f have c: "list_all carries_id found" by blast
  from Cons.prems(1) gm p f consider
    "boxscore_loop w games (acc @ found) failed st0 = (Inr (out, n), st1)"
    | "boxscore_loop w games acc (Suc failed) st0 = (Inr (out, n), st1)"
    by (auto split: if_splits)
  then show ?case
  proof cases
    case 1
    from Cons.IH [OF 1] Cons.prems(2) c show ?thesis by simp
  next
    case 2
    from Cons.IH [OF 2] Cons.prems(2) show ?thesis by simp
  qed
qed

lemma main_rows_carry_id:
  assumes "main_rows w st = (Inr out, st1)"
  shows "list_all carries_id out"
proof -
  from assms have "season_body w ''2024'' [] st = (Inr out, st1)" by (simp add: main_rows_season)
  then obtain games st2 n where "boxscore_loop w games [] 0 st2 = (Inr (out, n), st1)"
    by (auto simp: season_body_def split: prod.splits sum.splits)
  from boxscore_loop_carries_id [OF this] show ?thesis by simp
qed

lemma first_index_nth:
  "c \<in> set cols \<Longrightarrow> first_index cols c < length cols \<and> cols ! first_index cols c = c"
  by (induction cols) (auto simp: first_index_def)

lemma frame_columns_set: "set (frame_columns rs) = (\<Union>r \<in> set rs. fst ` set r)"
  by (auto simp: frame_columns_def)

lemma first_index_lower:
  assumes "\<forall>c \<in> set cols. lower c = g \<longrightarrow> c = g" and "lower g = g"
  shows "first_index (map lower cols) g = first_index cols g"
proof -
  have "takeWhile ((\<lambda>x. x \<noteq> g) \<circ> lower) cols = takeWhile (\<lambda>x. x \<noteq> g) cols"
    using assms by (intro takeWhile_cong) auto
  then show ?thesis by (simp add: first_index_def takeWhile_map)
qed

lemma data_frame_game_id:
  assumes "list_all carries_id rs" and "fr \<in> set (rows (data_frame rs))"
  shows "\<exists>g. cell_at fr (first_index (map lower (columns (data_frame rs))) ''game_id'') = Txt g"
proof -
  let ?cols = "frame_columns rs"
  from assms(2) obtain row where row: "row \<in> set rs" and fr: "fr = frame_row ?cols row"
    by (auto simp: data_frame_def)
  from assms(1) row have c: "carries_id row" by (simp add: list_all_iff)
  then obtain g where g: "map_of row ''game_id'' = Some (JStr g)" by (auto simp: carries_id_def)
  then have "''game_id'' \<in> fst ` set row" by (metis map_of_eq_None_iff option.distinct(1))
  with row have mem: "''game_id'' \<in> set ?cols" by (auto simp: frame_columns_set)
  have "\<forall>c \<in> set ?cols. lower c = ''game_id'' \<longrightarrow> c = ''game_id''"
    using assms(1) by (auto simp: frame_columns_set list_all_iff carries_id_def)
  from first_index_lower [OF this lower_game_id]
  have idx: "first_index (map lower (columns (data_frame rs))) ''game_id'' = first_index ?cols ''game_id''"
    by (simp add: data_frame_def)
  from first_index_nth [OF mem] g have "cell_at fr (first_index ?cols ''game_id'') = Txt g"
    by (simp add: fr frame_row_def cell_at_def)
  with idx show ?thesis by simp
qed

text \<open>
  C9. In a run of \<open>main\<close> that writes a season table, every row of that table has
  \<open>games_played\<close> at least 1: every collected row carries its game identifier, so
  \<open>games_played\<close> is the number of collected rows in the group of the row, and the group is
  not empty. The guard against a zero count then leaves the count as it is.
\<close>

theorem games_played_positive:
  assumes "main lib w st = (Inr (Some out), st1)" and "r \<in> set (table_rows out)"
  shows "\<exists>all_game_rows.
           main_rows w st = (Inr all_game_rows, st1) \<and>
           group_rows (data_frame all_game_rows) (key r) \<noteq> [] \<and>
           games_played r = length (group_rows (data_frame all_game_rows) (key r)) \<and>
           1 \<le> games_played r \<and>
           replace_zero (games_played r) = Fin (of_nat (games_played r))"
proof -
  from assms(1) obtain all_game_rows where
    m: "main_rows w st = (Inr all_game_rows, st1)"
    and a: "aggregate_player_season lib (data_frame all_game_rows) = Inr out"
    by (auto simp: main_def split: prod.splits sum.splits if_splits)
  let ?df = "data_frame all_game_rows"
  let ?ms = "group_rows ?df (key r)"
  note s = aggregate_row(1) [OF a assms(2)]
  have ne: "?ms \<noteq> []" using a assms(2) by (rule aggregate_row(2))
  have "\<not> missing (cell_at fr (first_index (map lower (columns ?df)) ''game_id''))"
    if "fr \<in> set ?ms" for fr
  proof -
    from that have "fr \<in> set (rows ?df)" by (simp add: group_rows_def)
    from data_frame_game_id [OF main_rows_carry_id [OF m] this] show ?thesis by auto
  qed
  then have "list_all (\<lambda>c. \<not> missing c)
      (map (\<lambda>row. cell_at row (first_index (map lower (columns ?df)) ''game_id'')) ?ms)"
    by (simp add: list_all_iff)
  then have len: "games_played r = length ?ms"
    unfolding summarize_fields(2) [OF s] by (simp add: count_present_all)
  with ne have pos: "1 \<le> games_played r" by (cases ?ms) simp_all
  then have "replace_zero (games_played r) = Fin (of_nat (games_played r))"
    by (simp add: replace_zero_def)
  with m ne len pos show ?thesis by blast
qed

lemma known_stats_empty: "known_stats fs [] row = row"
  by (induction fs) auto

lemma played_run:
  "\<exists>st1. main_rows played_world \<lparr>requested = [], sleeps = 0\<rparr> = (Inr [played_row], st1)"
proof -
  let ?st = "\<lparr>requested = [], sleeps = 0\<rparr>"
  let ?box = "JDict [(''teamId'', JInt 7), (''playerStats'', JList [JDict []])]"
  let ?data = "JDict [(''teamBoxscore'', JList [?box])]"
  define s1 where "s1 = snd (get_game_dates played_world ''2024'' ?st)"
  define s2 where "s2 = snd (scoreboard_loop played_world [''2024/09/01''] [] s1)"
  have d: "fst (get_game_dates played_world ''2024'' ?st) = Inr [''2024/09/01'']" by code_simp
  have s: "fst (scoreboard_loop played_world [''2024/09/01''] [] s1)
             = Inr [(''6348656'', played_meta)]"
    unfolding s1_def by code_simp
  have n: "length (requested s2) = 5" unfolding s2_def s1_def by code_simp
  have u: "dedupe [(''6348656'', played_meta)] {} [] = [(''6348656'', played_meta)]" by simp
  have rt: "resolve_team [] ?box = Inr (JDict [])" by code_simp
  have ha: "home_away (JStr []) played_meta = Inr (False, JBool False, JStr [])"
    by (simp add: home_away_def bindE_def played_meta_def)
  have pr: "player_row ''6348656'' played_meta (JStr []) (JStr []) False (JBool False) (JStr [])
      (JDict []) = Inr played_row"
    by (simp add: player_row_def bindE_def played_meta_def played_row_def known_stats_empty)
  have br: "boxscore_rows ''6348656'' played_meta ?data = Inr [played_row]"
    by (simp add: boxscore_rows_def team_block_def rt ha pr bindE_def)
  obtain st3 where pb: "parse_boxscore played_world ''6348656'' played_meta s2
      = (Inr [played_row], st3)"
    by (simp add: parse_boxscore_def get_def get_try_def n played_world_def br)
  have dd: "get_game_dates played_world ''2024'' ?st = (Inr [''2024/09/01''], s1)"
    unfolding s1_def by (metis d prod.collapse)
  have ss: "scoreboard_loop played_world [''2024/09/01''] [] s1
              = (Inr [(''6348656'', played_meta)], s2)"
    unfolding s2_def by (metis s prod.collapse)
  have ne: "[played_row] \<noteq> []" by simp
  have bl: "boxscore_loop played_world [(''6348656'', played_meta)] [] 0 s2
              = (Inr ([played_row], 0), st3)"
    using pb ne by simp
  have "season_body played_world ''2024'' [] ?st = (Inr [played_row], st3)"
    unfolding season_body_def by (simp only: dd ss u bl prod.case sum.case append_Nil)
  then show ?thesis by (auto simp: main_rows_season)
qed

theorem games_played_positive_witness:
  "\<exists>out st1. main exact played_world \<lparr>requested = [], sleeps = 0\<rparr> = (Inr (Some out), st1) \<and>
      map key (table_rows out) = [[Txt [], Txt [], Txt [], Txt [], Txt ''2024'']] \<and>
      map (\<lambda>r. length (group_rows (data_frame [played_row]) (key r))) (table_rows out) = [1] \<and>
      map games_played (table_rows out) = [1]"
proof -
  let ?st = "\<lparr>requested = [], sleeps = 0\<rparr>"
  let ?a = "aggregate_player_season exact (data_frame [played_row])"
  from played_run obtain st1 where run: "main_rows played_world ?st = (Inr [played_row], st1)"
    by blast
  have na: "\<not> isl ?a" by code_simp
  then obtain out where out: "?a = Inr out" by (cases ?a) auto
  have k: "map key (table_rows (projr ?a)) = [[Txt [], Txt [], Txt [], Txt [], Txt ''2024'']]"
    by code_simp
  have l: "length (group_rows (data_frame [played_row])
             [Txt [], Txt [], Txt [], Txt [], Txt ''2024'']) = 1" by code_simp
  have m: "main exact played_world ?st = (Inr (Some out), st1)"
    unfolding main_def by (simp only: run out prod.case sum.case) simp
  from k out obtain r where r: "table_rows out = [r]"
    "key r = [Txt [], Txt [], Txt [], Txt [], Txt ''2024'']" by auto
  then have "r \<in> set (table_rows out)" by simp
  from games_played_positive [OF m this] run
  have "games_played r = length (group_rows (data_frame [played_row]) (key r))" by auto
  with r l have "games_played r = 1" by simp
  with m r l show ?thesis by simp
qed

end
